theory Spec2Isabelle
  imports Complex_Main "HOL-Library.Log_Nat" "HOL-Library.AList"
begin

section \<open>IDSnap icon generator: a model of \<^verbatim>\<open>create-icon.py\<close>\<close>

text \<open>
  The script has two functions. \<^verbatim>\<open>create_icon(size, output_path)\<close> draws one icon with
  Pillow and saves it as a PNG; \<^verbatim>\<open>main()\<close> walks a fixed table of five Android mipmap
  folders and calls \<^verbatim>\<open>create_icon\<close> twice per folder. Everything the script touches
  outside itself is made explicit here: Python's arithmetic (floor division on unbounded
  integers, true division into binary64 floats), the Pillow drawing calls (an image is the
  term of the calls that built it), the fonts installed on the machine, and the file
  system. Console output (\<^verbatim>\<open>print\<close>) is not modelled.
\<close>

subsection \<open>Python exceptions\<close>

text \<open>
  An exception is a value: a computation returns \<open>Inl e\<close> when the Python raises \<open>e\<close>
  and \<open>Inr v\<close> when it returns \<open>v\<close>. The last five constructors are the subclasses of
  \<^verbatim>\<open>OSError\<close> that the file-system calls raise; \<open>OSError\<close> itself is what
  \<^verbatim>\<open>ImageFont.truetype\<close> raises for a font file it cannot open.
\<close>

datatype py_error =
    ZeroDivisionError
  | ValueError
  | OverflowError
  | MemoryError
  | OSError
  | FileExistsError
  | FileNotFoundError
  | IsADirectoryError
  | NotADirectoryError
  | PermissionError

definition and_then :: "py_error + 'a \<Rightarrow> ('a \<Rightarrow> py_error + 'b) \<Rightarrow> py_error + 'b" where
  "and_then m f = (case m of Inl e \<Rightarrow> Inl e | Inr x \<Rightarrow> f x)"

subsection \<open>Python numbers\<close>

text \<open>
  Python integers are unbounded, so they are \<^typ>\<open>int\<close>, and \<^verbatim>\<open>//\<close> is \<open>div\<close>
  (both round towards minus infinity). A Python float is an IEEE-754 binary64 number; a
  finite one is a rational, and an arithmetic operation returns the exact result rounded
  to the nearest representable number, ties to the even significand. \<open>ilog2 x\<close> is the
  binade of a positive \<open>x\<close>, that is \<open>\<lfloor>log\<^sub>2 x\<rfloor>\<close>; the unit in the last place of a
  53-bit significand is \<open>2 powi (e - 52)\<close>, and below the smallest normal number
  (\<open>2 powi -1022\<close>) the spacing stays that of the subnormals. Overflow to infinity is not
  modelled: every float the script computes lies between 0 and 31.
\<close>

definition ilog2 :: "rat \<Rightarrow> int" where
  "ilog2 x = (case quotient_of x of (p, q) \<Rightarrow>
     (let d = bitlen p - bitlen q in if 2 powi d \<le> x then d else d - 1))"

definition round_half_even :: "rat \<Rightarrow> int" where
  "round_half_even m =
     (let f = \<lfloor>m\<rfloor>; r = m - of_int f
      in if r < 1 / 2 then f else if 1 / 2 < r then f + 1 else if even f then f else f + 1)"

definition fl64 :: "rat \<Rightarrow> rat" where
  "fl64 x =
     (if x = 0 then 0
      else (let e = max (ilog2 \<bar>x\<bar>) (- 1022); u = 2 powi (e - 52)
            in sgn x * of_int (round_half_even (\<bar>x\<bar> / u)) * u))"

text \<open>\<^verbatim>\<open>a / b\<close> on two integers: the correctly rounded quotient, or \<^verbatim>\<open>ZeroDivisionError\<close>.\<close>

definition py_truediv :: "int \<Rightarrow> int \<Rightarrow> py_error + rat" where
  "py_truediv a b = (if b = 0 then Inl ZeroDivisionError else Inr (fl64 (of_int a / of_int b)))"

text \<open>\<^verbatim>\<open>n * x\<close> with an integer \<open>n\<close> and a float \<open>x\<close>: \<open>n\<close> is converted to a float first.\<close>

definition float_of_int :: "int \<Rightarrow> rat" where
  "float_of_int n = fl64 (of_int n)"

definition float_mul :: "rat \<Rightarrow> rat \<Rightarrow> rat" where
  "float_mul x y = fl64 (x * y)"

text \<open>\<^verbatim>\<open>int(x)\<close> on a float truncates towards zero.\<close>

definition py_int :: "rat \<Rightarrow> int" where
  "py_int x = (if 0 \<le> x then \<lfloor>x\<rfloor> else \<lceil>x\<rceil>)"

text \<open>\<^verbatim>\<open>range(n)\<close>: the integers \<open>0, \<dots>, n - 1\<close>, none when \<open>n \<le> 0\<close>.\<close>

definition py_range :: "int \<Rightarrow> int list" where
  "py_range n = map int [0..<nat n]"

subsection \<open>Pillow\<close>

text \<open>
  An image is the history of the calls that made it: \<^verbatim>\<open>Image.new\<close>, a shape drawn on an
  image through its \<^verbatim>\<open>ImageDraw\<close> handle, or \<^verbatim>\<open>Image.alpha_composite\<close> of two images. A
  bounding box is \<open>(x0, y0, x1, y1)\<close>, as Pillow takes it.
\<close>

datatype color = RGB int int int | RGBA int int int int

type_synonym box = "int \<times> int \<times> int \<times> int"

datatype font = FreeTypeFont string int | DefaultFont

datatype shape =
    Ellipse box color
  | Rectangle box color
  | Text "int \<times> int" string color font

datatype image =
    New string "int \<times> int" color
  | Draw image shape
  | AlphaComposite image image

fun image_mode :: "image \<Rightarrow> string" where
  "image_mode (New mode sz c) = mode"
| "image_mode (Draw im s) = image_mode im"
| "image_mode (AlphaComposite im1 im2) = image_mode im1"

fun image_size :: "image \<Rightarrow> int \<times> int" where
  "image_size (New mode sz c) = sz"
| "image_size (Draw im s) = image_size im"
| "image_size (AlphaComposite im1 im2) = image_size im1"

text \<open>
  \<^verbatim>\<open>Image.new(mode, size, color)\<close> refuses a negative width or height with
  \<^verbatim>\<open>ValueError\<close>. The sides are passed to C as \<^verbatim>\<open>int\<close>: one that is \<open>2\<^sup>3\<^sup>1\<close> or more
  raises \<^verbatim>\<open>OverflowError\<close>. A width above \<^verbatim>\<open>INT_MAX / 4 - 1\<close> fails the check of the line
  size in bytes and raises \<^verbatim>\<open>MemoryError\<close>. A machine that runs out of memory below that
  bound is not modelled.
\<close>

definition image_new :: "string \<Rightarrow> int \<times> int \<Rightarrow> color \<Rightarrow> py_error + image" where
  "image_new mode sz c =
     (if fst sz < 0 \<or> snd sz < 0 then Inl ValueError
      else if 2 ^ 31 \<le> fst sz \<or> 2 ^ 31 \<le> snd sz then Inl OverflowError
      else if (2 ^ 31 - 1) div 4 - 1 < fst sz then Inl MemoryError
      else Inr (New mode sz c))"

text \<open>
  \<^verbatim>\<open>draw.ellipse\<close> and \<^verbatim>\<open>draw.rectangle\<close> refuse a box whose second corner lies left of
  or above the first (\<^verbatim>\<open>ValueError: x1 must be greater than or equal to x0\<close>);
  \<^verbatim>\<open>draw.text\<close> accepts any position.
\<close>

definition box_ordered :: "box \<Rightarrow> bool" where
  "box_ordered b = (case b of (x0, y0, x1, y1) \<Rightarrow> x0 \<le> x1 \<and> y0 \<le> y1)"

definition draw_ellipse :: "image \<Rightarrow> box \<Rightarrow> color \<Rightarrow> py_error + image" where
  "draw_ellipse im b fill =
     (if box_ordered b then Inr (Draw im (Ellipse b fill)) else Inl ValueError)"

definition draw_rectangle :: "image \<Rightarrow> box \<Rightarrow> color \<Rightarrow> py_error + image" where
  "draw_rectangle im b fill =
     (if box_ordered b then Inr (Draw im (Rectangle b fill)) else Inl ValueError)"

definition draw_text :: "image \<Rightarrow> int \<times> int \<Rightarrow> string \<Rightarrow> color \<Rightarrow> font \<Rightarrow> image" where
  "draw_text im xy txt fill fnt = Draw im (Text xy txt fill fnt)"

text \<open>\<^verbatim>\<open>Image.alpha_composite(im1, im2)\<close> wants two RGBA images of one size.\<close>

definition alpha_composite :: "image \<Rightarrow> image \<Rightarrow> py_error + image" where
  "alpha_composite im1 im2 =
     (if image_mode im1 = ''RGBA'' \<and> image_mode im2 = ''RGBA'' \<and> image_size im1 = image_size im2
      then Inr (AlphaComposite im1 im2) else Inl ValueError)"

text \<open>
  What the machine contributes to the drawing: the font files FreeType can open, and the
  box a font measures for a string set at the origin (the font's metrics).
\<close>

record env =
  font_files :: "string list"
  glyph_box :: "font \<Rightarrow> string \<Rightarrow> box"

text \<open>
  \<^verbatim>\<open>ImageFont.truetype(path, size)\<close> raises \<^verbatim>\<open>OSError\<close> when the file cannot be opened
  and \<^verbatim>\<open>ValueError\<close> for a size that is not positive; \<^verbatim>\<open>ImageFont.load_default()\<close>
  returns the font compiled into Pillow and needs no file.
\<close>

definition truetype :: "env \<Rightarrow> string \<Rightarrow> int \<Rightarrow> py_error + font" where
  "truetype e path sz =
     (if sz \<le> 0 then Inl ValueError
      else if path \<in> set (font_files e) then Inr (FreeTypeFont path sz)
      else Inl OSError)"

definition load_default :: font where
  "load_default = DefaultFont"

text \<open>
  \<^verbatim>\<open>draw.textbbox(xy, text, font=font)\<close>: the measured box, moved to \<open>xy\<close>. Measuring
  does not fail: Pillow measures with every font it can load, the built-in one included.
\<close>

definition textbbox :: "env \<Rightarrow> int \<times> int \<Rightarrow> string \<Rightarrow> font \<Rightarrow> box" where
  "textbbox e xy txt fnt =
     (case glyph_box e fnt txt of (l, t, r, b) \<Rightarrow> (fst xy + l, snd xy + t, fst xy + r, snd xy + b))"

subsection \<open>The file system\<close>

text \<open>
  Paths are relative to the working directory, which exists and is a directory. The state
  lists the directories in the order they were created, the files with their contents,
  and the paths that the operating system does not permit to be created or written.
\<close>

datatype content = PNG image | Bytes string

record filesystem =
  dirs :: "string list"
  files :: "(string \<times> content) list"
  denied :: "string list"

definition isdir :: "filesystem \<Rightarrow> string \<Rightarrow> bool" where
  "isdir fs p = (p \<in> set (dirs fs))"

definition isfile :: "filesystem \<Rightarrow> string \<Rightarrow> bool" where
  "isfile fs p = (map_of (files fs) p \<noteq> None)"

definition path_exists :: "filesystem \<Rightarrow> string \<Rightarrow> bool" where
  "path_exists fs p = (isdir fs p \<or> isfile fs p)"

text \<open>\<^verbatim>\<open>os.path.join(a, b)\<close> and \<^verbatim>\<open>os.path.split(p)\<close> of \<^verbatim>\<open>posixpath\<close>.\<close>

definition path_join :: "string \<Rightarrow> string \<Rightarrow> string" where
  "path_join a b =
     (if b \<noteq> [] \<and> hd b = CHR ''/'' then b
      else if a = [] \<or> last a = CHR ''/'' then a @ b
      else a @ ''/'' @ b)"

definition rstrip_sep :: "string \<Rightarrow> string" where
  "rstrip_sep p = rev (dropWhile (\<lambda>c. c = CHR ''/'') (rev p))"

definition path_split :: "string \<Rightarrow> string \<times> string" where
  "path_split p =
     (let tail = rev (takeWhile (\<lambda>c. c \<noteq> CHR ''/'') (rev p));
          head = take (length p - length tail) p
      in (if head \<noteq> [] \<and> \<not> list_all (\<lambda>c. c = CHR ''/'') head then rstrip_sep head else head,
          tail))"

text \<open>
  \<^verbatim>\<open>os.mkdir(p)\<close> creates one directory: the path must be new, its parent must be a
  directory, and the system must allow it.
\<close>

definition mkdir :: "string \<Rightarrow> filesystem \<Rightarrow> py_error option \<times> filesystem" where
  "mkdir p fs =
     (let parent = fst (path_split p)
      in if p = [] then (Some FileNotFoundError, fs)
         else if path_exists fs p then (Some FileExistsError, fs)
         else if parent \<noteq> [] \<and> isfile fs parent then (Some NotADirectoryError, fs)
         else if parent \<noteq> [] \<and> \<not> isdir fs parent then (Some FileNotFoundError, fs)
         else if p \<in> set (denied fs) then (Some PermissionError, fs)
         else (None, fs\<lparr>dirs := dirs fs @ [p]\<rparr>))"

text \<open>
  \<^verbatim>\<open>os.makedirs(name, exist_ok=...)\<close> as \<^verbatim>\<open>Lib/os.py\<close> writes it: split off the last
  component (twice when the name ends in a separator), create the head first when it is
  missing, then \<^verbatim>\<open>mkdir\<close> the name itself; with \<^verbatim>\<open>exist_ok\<close> an \<^verbatim>\<open>OSError\<close> of that last
  \<^verbatim>\<open>mkdir\<close> is dropped when the name is a directory by then.
\<close>

definition makedirs_split :: "string \<Rightarrow> string \<times> string" where
  "makedirs_split name =
     (case path_split name of (head, tail) \<Rightarrow> if tail = [] then path_split head else (head, tail))"

definition mkdir_last :: "string \<Rightarrow> bool \<Rightarrow> filesystem \<Rightarrow> py_error option \<times> filesystem" where
  "mkdir_last name exist_ok fs =
     (case mkdir name fs of
        (None, fs') \<Rightarrow> (None, fs')
      | (Some e, fs') \<Rightarrow> if \<not> exist_ok \<or> \<not> isdir fs' name then (Some e, fs') else (None, fs'))"

lemma length_path_split_head: "length (fst (path_split p)) \<le> length p - length (snd (path_split p))"
proof -
  define n where "n = length p - length (snd (path_split p))"
  have strip: "length (rstrip_sep h) \<le> length h" for h
    by (simp add: rstrip_sep_def) (metis length_dropWhile_le length_rev)
  have "length (take n p) \<le> n" by simp
  moreover have "length (rstrip_sep (take n p)) \<le> length (take n p)" by (rule strip)
  moreover have "fst (path_split p) = take n p \<or> fst (path_split p) = rstrip_sep (take n p)"
    by (simp add: path_split_def Let_def n_def)
  ultimately show ?thesis unfolding n_def[symmetric] by fastforce
qed

lemma length_path_split_tail: "length (snd (path_split p)) \<le> length p"
  by (simp add: path_split_def Let_def) (metis length_rev length_takeWhile_le)

lemma makedirs_split_shorter:
  assumes "snd (makedirs_split name) \<noteq> []"
  shows "length (fst (makedirs_split name)) < length name"
proof (cases "snd (path_split name) = []")
  case True
  then have eq: "makedirs_split name = path_split (fst (path_split name))"
    by (cases "path_split name") (simp add: makedirs_split_def)
  have "0 < length (snd (path_split (fst (path_split name))))"
    using assms eq by simp
  moreover have "length (snd (path_split (fst (path_split name)))) \<le> length (fst (path_split name))"
    by (rule length_path_split_tail)
  moreover have "length (fst (path_split (fst (path_split name))))
      \<le> length (fst (path_split name)) - length (snd (path_split (fst (path_split name))))"
    by (rule length_path_split_head)
  moreover have "length (fst (path_split name)) \<le> length name"
    using length_path_split_head[of name] by simp
  ultimately show ?thesis unfolding eq by linarith
next
  case False
  then have eq: "makedirs_split name = path_split name"
    by (cases "path_split name") (simp add: makedirs_split_def)
  have "0 < length (snd (path_split name))" using False by simp
  moreover have "length (snd (path_split name)) \<le> length name"
    by (rule length_path_split_tail)
  ultimately show ?thesis using length_path_split_head[of name] unfolding eq by linarith
qed

function makedirs :: "string \<Rightarrow> bool \<Rightarrow> filesystem \<Rightarrow> py_error option \<times> filesystem" where
  "makedirs name exist_ok fs =
     (if fst (makedirs_split name) \<noteq> [] \<and> snd (makedirs_split name) \<noteq> []
         \<and> \<not> path_exists fs (fst (makedirs_split name))
      then (case makedirs (fst (makedirs_split name)) exist_ok fs of
              (Some e, fs') \<Rightarrow>
                if e \<noteq> FileExistsError then (Some e, fs')
                else if snd (makedirs_split name) = ''.'' then (None, fs')
                else mkdir_last name exist_ok fs'
            | (None, fs') \<Rightarrow>
                if snd (makedirs_split name) = ''.'' then (None, fs')
                else mkdir_last name exist_ok fs')
      else mkdir_last name exist_ok fs)"
  by pat_completeness auto
termination
  by (relation "measure (\<lambda>(name, exist_ok, fs). length name)")
     (auto simp: makedirs_split_shorter)

text \<open>
  \<^verbatim>\<open>img.save(path, 'PNG')\<close> opens the path for writing and encodes the image into it.
  Opening fails when the path is a directory, when its parent is not a directory, or when
  the system refuses; a failed save leaves no file behind and changes nothing.
\<close>

definition save :: "image \<Rightarrow> string \<Rightarrow> filesystem \<Rightarrow> py_error option \<times> filesystem" where
  "save im path fs =
     (let parent = fst (path_split path)
      in if path = [] then (Some FileNotFoundError, fs)
         else if isdir fs path then (Some IsADirectoryError, fs)
         else if parent \<noteq> [] \<and> isfile fs parent then (Some NotADirectoryError, fs)
         else if parent \<noteq> [] \<and> \<not> isdir fs parent then (Some FileNotFoundError, fs)
         else if path \<in> set (denied fs) then (Some PermissionError, fs)
         else (None, fs\<lparr>files := AList.update path (PNG im) (files fs)\<rparr>))"

subsection \<open>\<^verbatim>\<open>create_icon\<close>\<close>

text \<open>
  The parameter \<^verbatim>\<open>size\<close> is written \<open>size'\<close>, and the locals \<^verbatim>\<open>font\<close> and \<^verbatim>\<open>text\<close>
  are \<open>fnt\<close> and \<open>txt\<close>: the plain names are taken.
\<close>

text \<open>
  Line 31, \<^verbatim>\<open>alpha = int(30 * (i / (size//2)))\<close>: a true division, a float product and a
  truncation.
\<close>

definition gradient_alpha :: "int \<Rightarrow> int \<Rightarrow> py_error + int" where
  "gradient_alpha i size' =
     and_then (py_truediv i (size' div 2)) (\<lambda>q. Inr (py_int (float_mul (float_of_int 30) q)))"

text \<open>Lines 30 to 33, the loop over \<^verbatim>\<open>range(size//2)\<close> that draws the bands of the overlay.\<close>

fun gradient_loop :: "int \<Rightarrow> int \<Rightarrow> int list \<Rightarrow> image \<Rightarrow> py_error + image" where
  "gradient_loop size' margin [] gradient_overlay = Inr gradient_overlay"
| "gradient_loop size' margin (i # rest) gradient_overlay =
     and_then (gradient_alpha i size') (\<lambda>alpha.
     and_then (draw_ellipse gradient_overlay (margin, margin + i, size' - margin, size' - margin)
                 (RGBA 0 0 0 alpha)) (\<lambda>gradient_overlay.
     gradient_loop size' margin rest gradient_overlay))"

text \<open>
  Lines 41 to 49: the nested \<^verbatim>\<open>try\<close>/\<^verbatim>\<open>except:\<close> blocks. A bare \<^verbatim>\<open>except:\<close> catches every
  exception of the call it guards.
\<close>

definition select_font :: "env \<Rightarrow> int \<Rightarrow> font" where
  "select_font e font_size =
     (case truetype e ''/usr/share/fonts/truetype/dejavu/DejaVuSans-Bold.ttf'' font_size of
        Inr f \<Rightarrow> f
      | Inl err \<Rightarrow>
          (case truetype e ''/System/Library/Fonts/Arial.ttf'' font_size of
             Inr f \<Rightarrow> f
           | Inl err' \<Rightarrow> load_default))"

text \<open>Lines 13 to 82: everything \<^verbatim>\<open>create_icon\<close> draws, in the order of the source.\<close>

definition icon_image :: "env \<Rightarrow> int \<Rightarrow> py_error + image" where
  "icon_image e size' =
     and_then (image_new ''RGBA'' (size', size') (RGBA 0 0 0 0)) (\<lambda>img.
     let bg_color = RGB 33 150 243;
         text_color = RGB 255 255 255;
         accent_color = RGB 255 193 7;
         margin = size' div 20
     in
     and_then (draw_ellipse img (margin, margin, size' - margin, size' - margin) bg_color) (\<lambda>img.
     and_then (image_new ''RGBA'' (size', size') (RGBA 0 0 0 0)) (\<lambda>gradient_overlay.
     and_then (gradient_loop size' margin (py_range (size' div 2)) gradient_overlay)
       (\<lambda>gradient_overlay.
     and_then (alpha_composite img gradient_overlay) (\<lambda>img.
     let font_size = max (size' div 8) 12;
         fnt = select_font e font_size;
         txt = ''ID''
     in case textbbox e (0, 0) txt fnt of (bbox0, bbox1, bbox2, bbox3) \<Rightarrow>
     let text_width = bbox2 - bbox0;
         text_height = bbox3 - bbox1;
         text_x = (size' - text_width) div 2;
         text_y = (size' - text_height) div 2 - size' div 12;
         shadow_offset = max 1 (size' div 100);
         img = draw_text img (text_x + shadow_offset, text_y + shadow_offset) txt
                 (RGBA 0 0 0 100) fnt;
         img = draw_text img (text_x, text_y) txt text_color fnt;
         cam_size = size' div 6;
         cam_x = (size' - cam_size) div 2;
         cam_y = text_y + text_height + size' div 20
     in
     and_then (draw_rectangle img (cam_x, cam_y, cam_x + cam_size, cam_y + cam_size div 2)
                 accent_color) (\<lambda>img.
     let lens_size = cam_size div 3;
         lens_x = cam_x + (cam_size - lens_size) div 2;
         lens_y = cam_y + (cam_size div 2 - lens_size) div 2
     in draw_ellipse img (lens_x, lens_y, lens_x + lens_size, lens_y + lens_size)
          (RGBA 0 0 0 150)))))))"

text \<open>Lines 10 to 86: draw, then save (lines 84 and 85).\<close>

definition create_icon :: "env \<Rightarrow> int \<Rightarrow> string \<Rightarrow> filesystem \<Rightarrow> py_error option \<times> filesystem" where
  "create_icon e size' output_path fs =
     (case icon_image e size' of
        Inl err \<Rightarrow> (Some err, fs)
      | Inr img \<Rightarrow> save img output_path fs)"

subsection \<open>\<^verbatim>\<open>main\<close>\<close>

text \<open>
  The dictionary \<^verbatim>\<open>sizes\<close> is iterated in insertion order, so it is the list of its
  items. An exception of \<^verbatim>\<open>os.makedirs\<close> or \<^verbatim>\<open>create_icon\<close> is caught nowhere: it ends
  the loop and the run, and the file system stays as the failing call left it.
\<close>

definition sizes :: "(string \<times> int) list" where
  "sizes =
     [(''mipmap-mdpi'', 48),
      (''mipmap-hdpi'', 72),
      (''mipmap-xhdpi'', 96),
      (''mipmap-xxhdpi'', 144),
      (''mipmap-xxxhdpi'', 192)]"

definition base_path :: string where
  "base_path = ''android/app/src/main/res''"

fun main_loop :: "env \<Rightarrow> (string \<times> int) list \<Rightarrow> filesystem \<Rightarrow> py_error option \<times> filesystem" where
  "main_loop e [] fs = (None, fs)"
| "main_loop e ((folder, size') # rest) fs =
     (let folder_path = path_join base_path folder
      in case makedirs folder_path True fs of
           (Some err, fs) \<Rightarrow> (Some err, fs)
         | (None, fs) \<Rightarrow>
      let icon_path = path_join folder_path ''ic_launcher.png''
      in case create_icon e size' icon_path fs of
           (Some err, fs) \<Rightarrow> (Some err, fs)
         | (None, fs) \<Rightarrow>
      let round_icon_path = path_join folder_path ''ic_launcher_round.png''
      in case create_icon e size' round_icon_path fs of
           (Some err, fs) \<Rightarrow> (Some err, fs)
         | (None, fs) \<Rightarrow> main_loop e rest fs)"

definition main :: "env \<Rightarrow> filesystem \<Rightarrow> py_error option \<times> filesystem" where
  "main e fs = main_loop e sizes fs"

subsection \<open>Reading an image back\<close>

text \<open>
  The shapes drawn on an image itself, in drawing order; the images composited over it;
  and the canvas it started from.
\<close>

fun drawn_shapes :: "image \<Rightarrow> shape list" where
  "drawn_shapes (New mode sz c) = []"
| "drawn_shapes (Draw im s) = drawn_shapes im @ [s]"
| "drawn_shapes (AlphaComposite im1 im2) = drawn_shapes im1"

fun overlays :: "image \<Rightarrow> image list" where
  "overlays (New mode sz c) = []"
| "overlays (Draw im s) = overlays im"
| "overlays (AlphaComposite im1 im2) = overlays im1 @ [im2]"

fun canvas :: "image \<Rightarrow> image" where
  "canvas (New mode sz c) = New mode sz c"
| "canvas (Draw im s) = canvas im"
| "canvas (AlphaComposite im1 im2) = canvas im1"

subsection \<open>Three machines\<close>

text \<open>
  A machine with the DejaVu font installed, one with neither font file and one with
  both. The boxes are what Pillow measures for the text \<^verbatim>\<open>ID\<close> set at the origin:
  \<open>(0, 3, 14, 12)\<close> in DejaVu Sans Bold at 12 pixels, which is the font size of every
  icon of less than 104 pixels, and \<open>(0, 2, 10, 10)\<close> in the built-in font, which has one
  size. The machines answer with these two boxes whatever the string and the font size;
  with a FreeType font they stand for a real machine at font size 12 only.
\<close>

definition measured_box :: "font \<Rightarrow> string \<Rightarrow> box" where
  "measured_box fnt txt =
     (case fnt of
        FreeTypeFont path s \<Rightarrow> (0, 3, 14, 12)
      | DefaultFont \<Rightarrow> (0, 2, 10, 10))"

definition linux_env :: env where
  "linux_env =
     \<lparr>font_files = [''/usr/share/fonts/truetype/dejavu/DejaVuSans-Bold.ttf''],
      glyph_box = measured_box\<rparr>"

definition bare_env :: env where
  "bare_env = \<lparr>font_files = [], glyph_box = measured_box\<rparr>"

definition both_fonts_env :: env where
  "both_fonts_env =
     \<lparr>font_files = [''/System/Library/Fonts/Arial.ttf'',
                     ''/usr/share/fonts/truetype/dejavu/DejaVuSans-Bold.ttf''],
      glyph_box = measured_box\<rparr>"

subsection \<open>Three file systems\<close>

text \<open>
  An empty working directory; one in which \<^verbatim>\<open>android/app/src/main/res\<close> exists and is
  empty; and the latter with the round icon of \<^verbatim>\<open>mipmap-hdpi\<close> locked against writing.
\<close>

definition empty_fs :: filesystem where
  "empty_fs = \<lparr>dirs = [], files = [], denied = []\<rparr>"

definition res_fs :: filesystem where
  "res_fs =
     \<lparr>dirs = [''android'', ''android/app'', ''android/app/src'', ''android/app/src/main'',
              ''android/app/src/main/res''],
      files = [],
      denied = []\<rparr>"

definition locked_fs :: filesystem where
  "locked_fs =
     res_fs\<lparr>denied := [''android/app/src/main/res/mipmap-hdpi/ic_launcher_round.png'']\<rparr>"

subsection \<open>Names for what the drawing computes\<close>

text \<open>That line 14 returns: \<^verbatim>\<open>Image.new\<close> creates the canvas of \<open>size\<close> by \<open>size\<close> pixels.\<close>

definition creates_canvas :: "int \<Rightarrow> bool" where
  "creates_canvas size' =
     (case image_new ''RGBA'' (size', size') (RGBA 0 0 0 0) of
        Inl err \<Rightarrow> False
      | Inr img \<Rightarrow> True)"

text \<open>
  The alpha of band \<open>i\<close> when the division of line 31 succeeds, the band itself (lines 32
  and 33), and the width and height that lines 53 to 55 measure for the text.
\<close>

definition band_alpha :: "int \<Rightarrow> int \<Rightarrow> int" where
  "band_alpha i size' =
     py_int (float_mul (float_of_int 30) (fl64 (of_int i / of_int (size' div 2))))"

definition band :: "int \<Rightarrow> int \<Rightarrow> shape" where
  "band size' i =
     Ellipse (size' div 20, size' div 20 + i, size' - size' div 20, size' - size' div 20)
       (RGBA 0 0 0 (band_alpha i size'))"

definition text_extent :: "env \<Rightarrow> int \<Rightarrow> int \<times> int" where
  "text_extent e size' =
     (case textbbox e (0, 0) ''ID'' (select_font e (max (size' div 8) 12)) of
        (bbox0, bbox1, bbox2, bbox3) \<Rightarrow> (bbox2 - bbox0, bbox3 - bbox1))"

text \<open>
  The boxes of the rectangles and of the ellipses among some shapes, and the fonts of the
  texts.
\<close>

fun rectangle_boxes :: "shape list \<Rightarrow> box list" where
  "rectangle_boxes [] = []"
| "rectangle_boxes (Rectangle b c # ss) = b # rectangle_boxes ss"
| "rectangle_boxes (s # ss) = rectangle_boxes ss"

fun ellipse_boxes :: "shape list \<Rightarrow> box list" where
  "ellipse_boxes [] = []"
| "ellipse_boxes (Ellipse b c # ss) = b # ellipse_boxes ss"
| "ellipse_boxes (s # ss) = ellipse_boxes ss"

fun text_fonts :: "shape list \<Rightarrow> font list" where
  "text_fonts [] = []"
| "text_fonts (Text xy txt c fnt # ss) = fnt # text_fonts ss"
| "text_fonts (s # ss) = text_fonts ss"

text \<open>The extent of a box between its two corners.\<close>

definition box_width :: "box \<Rightarrow> int" where
  "box_width b = (case b of (x0, y0, x1, y1) \<Rightarrow> x1 - x0)"

definition box_height :: "box \<Rightarrow> int" where
  "box_height b = (case b of (x0, y0, x1, y1) \<Rightarrow> y1 - y0)"

text \<open>
  A path \<^verbatim>\<open>save\<close> can write: not a directory, in the working directory or in an
  existing directory, and not refused by the system.
\<close>

definition writable :: "filesystem \<Rightarrow> string \<Rightarrow> bool" where
  "writable fs path =
     (path \<noteq> [] \<and> \<not> isdir fs path
      \<and> (fst (path_split path) = []
           \<or> (isdir fs (fst (path_split path)) \<and> \<not> isfile fs (fst (path_split path))))
      \<and> path \<notin> set (denied fs))"

subsection \<open>The batch as a sequence of calls\<close>

text \<open>
  \<^verbatim>\<open>main\<close> makes fifteen calls in a row: for each folder one \<^verbatim>\<open>os.makedirs\<close> and two
  \<^verbatim>\<open>create_icon\<close>. \<open>run_calls\<close> runs a list of calls and stops at the first exception;
  \<open>icon_jobs\<close> lists the render jobs \<open>(output_path, size)\<close> among some calls, in order.
  That \<^verbatim>\<open>main\<close> is \<open>run_calls\<close> on \<open>batch\<close> is lemma \<open>main_run_calls\<close> below.
\<close>

datatype call = Makedirs string | CreateIcon int string

fun run_call :: "env \<Rightarrow> call \<Rightarrow> filesystem \<Rightarrow> py_error option \<times> filesystem" where
  "run_call e (Makedirs name) fs = makedirs name True fs"
| "run_call e (CreateIcon size' output_path) fs = create_icon e size' output_path fs"

fun run_calls :: "env \<Rightarrow> call list \<Rightarrow> filesystem \<Rightarrow> py_error option \<times> filesystem" where
  "run_calls e [] fs = (None, fs)"
| "run_calls e (c # cs) fs =
     (case run_call e c fs of
        (Some err, fs') \<Rightarrow> (Some err, fs')
      | (None, fs') \<Rightarrow> run_calls e cs fs')"

definition calls_of :: "(string \<times> int) list \<Rightarrow> call list" where
  "calls_of items =
     concat (map (\<lambda>(folder, size').
        [Makedirs (path_join base_path folder),
         CreateIcon size' (path_join (path_join base_path folder) ''ic_launcher.png''),
         CreateIcon size' (path_join (path_join base_path folder) ''ic_launcher_round.png'')])
       items)"

definition batch :: "call list" where
  "batch = calls_of sizes"

fun icon_jobs :: "call list \<Rightarrow> (string \<times> int) list" where
  "icon_jobs [] = []"
| "icon_jobs (Makedirs name # cs) = icon_jobs cs"
| "icon_jobs (CreateIcon size' output_path # cs) = (output_path, size') # icon_jobs cs"

text \<open>
  Writing files one after the other into an association list, and the files that the
  render jobs among some calls write.
\<close>

definition write_all ::
  "(string \<times> content) list \<Rightarrow> (string \<times> content) list \<Rightarrow> (string \<times> content) list" where
  "write_all al ws = foldl (\<lambda>al (p, c). AList.update p c al) al ws"

definition written :: "env \<Rightarrow> call list \<Rightarrow> (string \<times> content) list" where
  "written e cs = map (\<lambda>(p, s). (p, PNG (projr (icon_image e s)))) (icon_jobs cs)"

section \<open>Properties\<close>

subsection \<open>Rounding to a binary64 float\<close>

text \<open>\<open>ilog2\<close> is the binade, and rounding moves a normal number by at most half a unit.\<close>

lemma ilog2_bounds:
  assumes "0 < x"
  shows "2 powi (ilog2 x) \<le> x \<and> x < 2 powi (ilog2 x + 1)"
proof -
  obtain p q where pq: "quotient_of x = (p, q)" by (cases "quotient_of x")
  have q: "0 < q" using pq quotient_of_denom_pos by blast
  have x: "x = of_int p / of_int q" using pq quotient_of_div by blast
  have p: "0 < p" using assms q x by (simp add: zero_less_divide_iff)
  define bp where "bp = bitlen p"
  define bq where "bq = bitlen q"
  have bp1: "1 \<le> bp" using p by (auto simp: bp_def bitlen_alt_def)
  have bq1: "1 \<le> bq" using q by (auto simp: bq_def bitlen_alt_def)
  from bitlen_bounds[OF p] have pl: "(2::int) ^ nat (bp - 1) \<le> p" and pu: "p < 2 ^ nat bp"
    by (auto simp: bp_def)
  from bitlen_bounds[OF q] have ql: "(2::int) ^ nat (bq - 1) \<le> q" and qu: "q < 2 ^ nat bq"
    by (auto simp: bq_def)
  have plr: "(2::rat) powi (bp - 1) \<le> of_int p"
    using pl bp1 by (simp add: power_int_def)
  have pur: "of_int p < (2::rat) powi bp"
    using pu bp1 by (simp add: power_int_def)
  have qlr: "(2::rat) powi (bq - 1) \<le> of_int q"
    using ql bq1 by (simp add: power_int_def)
  have qur: "of_int q < (2::rat) powi bq"
    using qu bq1 by (simp add: power_int_def)
  have qpos: "(0::rat) < of_int q" using q by simp
  have lo: "(2::rat) powi (bp - bq - 1) < x"
  proof -
    have "(2::rat) powi (bp - bq - 1) * of_int q < 2 powi (bp - bq - 1) * 2 powi bq"
      using qur by simp
    also have "\<dots> = 2 powi (bp - 1)"
      by (simp add: power_int_add[symmetric])
    also have "\<dots> \<le> of_int p" by (rule plr)
    finally show ?thesis using qpos by (simp add: x pos_less_divide_eq)
  qed
  have hi: "x < (2::rat) powi (bp - bq + 1)"
  proof -
    have "of_int p < (2::rat) powi bp" by (rule pur)
    also have "\<dots> = 2 powi (bp - bq + 1) * 2 powi (bq - 1)"
      by (simp add: power_int_add[symmetric])
    also have "\<dots> \<le> 2 powi (bp - bq + 1) * of_int q"
      using qlr by simp
    finally show ?thesis using qpos by (simp add: x pos_divide_less_eq)
  qed
  show ?thesis
  proof (cases "2 powi (bp - bq) \<le> x")
    case True
    then have "ilog2 x = bp - bq" by (simp add: ilog2_def pq bp_def bq_def)
    then show ?thesis using True hi by simp
  next
    case False
    then have "ilog2 x = bp - bq - 1" by (simp add: ilog2_def pq bp_def bq_def)
    then show ?thesis using False lo by simp
  qed
qed

lemma round_half_even_err: "\<bar>of_int (round_half_even m) - m\<bar> \<le> 1 / 2"
proof -
  have "of_int \<lfloor>m\<rfloor> \<le> m" "m < of_int \<lfloor>m\<rfloor> + 1" by linarith+
  then show ?thesis by (auto simp: round_half_even_def Let_def)
qed

lemma fl64_rel_err:
  assumes "2 powi (- 1022) \<le> x"
  shows "\<bar>fl64 x - x\<bar> \<le> x / 2 ^ 53"
proof -
  have xpos: "0 < x" using assms by (smt (verit) zero_less_power_int zero_less_numeral less_le_trans)
  define e where "e = ilog2 x"
  have lo: "2 powi e \<le> x" and hi: "x < 2 powi (e + 1)"
    using ilog2_bounds[OF xpos] by (auto simp: e_def)
  have "(2::rat) powi (- 1022) < 2 powi (e + 1)" using assms hi by (rule le_less_trans)
  then have "- 1022 < e + 1"
    using power_int_increasing[of "e + 1" "- 1022" "2::rat"] by (cases "- 1022 < e + 1") auto
  then have emax: "max e (- 1022) = e" by simp
  define u :: rat where "u = 2 powi (e - 52)"
  have upos: "0 < u" by (simp add: u_def)
  define r where "r = round_half_even (x / u)"
  have fl: "fl64 x = of_int r * u"
    using xpos emax by (simp add: fl64_def e_def[symmetric] u_def[symmetric] r_def Let_def)
  have "\<bar>of_int r - x / u\<bar> \<le> 1 / 2" unfolding r_def by (rule round_half_even_err)
  then have "\<bar>of_int r - x / u\<bar> * u \<le> 1 / 2 * u" using upos by (simp only: mult_le_cancel_right_pos)
  moreover have "\<bar>of_int r - x / u\<bar> * u = \<bar>of_int r * u - x\<bar>"
  proof -
    have "\<bar>of_int r - x / u\<bar> * u = \<bar>(of_int r - x / u) * u\<bar>"
      using upos by (simp add: abs_mult)
    also have "(of_int r - x / u) * u = of_int r * u - x"
      using upos by (simp add: left_diff_distrib)
    finally show ?thesis .
  qed
  ultimately have err: "\<bar>fl64 x - x\<bar> \<le> u / 2" by (simp add: fl)
  have "u / 2 = 2 powi e / 2 ^ 53"
  proof -
    have "u = 2 powi e / 2 powi 52" unfolding u_def by (simp add: power_int_diff)
    then show ?thesis by simp
  qed
  also have "\<dots> \<le> x / 2 ^ 53" using lo by (simp add: divide_right_mono)
  finally show ?thesis using err by linarith
qed

text \<open>
  Five values that CPython's \<^verbatim>\<open>float.as_integer_ratio\<close> gives for the same quotients, two
  of them ties between neighbouring floats.
\<close>

lemma fl64_examples:
  "fl64 (1 / 3) = 6004799503160661 / 18014398509481984"
  "fl64 (1 / 10) = 3602879701896397 / 36028797018963968"
  "fl64 ((2 ^ 53 + 1) / 2 ^ 53) = 1"
  "fl64 ((2 ^ 53 + 3) / 2 ^ 53) = (2 ^ 51 + 1) / 2 ^ 51"
  "fl64 (- (1 / 3)) = - (6004799503160661 / 18014398509481984)"
  by code_simp+

text \<open>
  The two roundings of line 31 are exact on the thirtieths: these are the quotients
  \<open>i / halfSize\<close> for which \<open>30 i / halfSize\<close> is an integer.
\<close>

lemma fl64_thirtieths:
  "list_all (\<lambda>k. fl64 (30 * fl64 (of_int k / 30)) = of_int k) [0..29]"
  by code_simp

lemma fl64_thirtieth:
  assumes "0 \<le> k" "k \<le> 29"
  shows "fl64 (30 * fl64 (of_int k / 30)) = of_int k"
proof -
  have "k \<in> set [0..29]" using assms by simp
  then show ?thesis using fl64_thirtieths unfolding list_all_iff by blast
qed

text \<open>
  Elsewhere \<open>30 i / h\<close> is at least \<open>1 / h\<close> away from an integer, and the two
  roundings move the product by less than \<open>61 / 2\<^sup>5\<^sup>3\<close>.
\<close>

lemma alpha_exact:
  assumes i0: "0 \<le> i" and ih: "i < h" and hb: "h \<le> 2 ^ 47"
  shows "\<lfloor>fl64 (30 * fl64 (of_int i / of_int h))\<rfloor> = 30 * i div h"
proof -
  have hpos: "0 < h" using i0 ih by simp
  define m where "m = 30 * i div h"
  define r where "r = 30 * i mod h"
  have split: "30 * i = m * h + r" by (simp add: m_def r_def)
  have r0: "0 \<le> r" and rh: "r < h" using hpos by (simp_all add: r_def)
  have m0: "0 \<le> m" using i0 hpos by (simp add: m_def pos_imp_zdiv_nonneg_iff)
  have m29: "m \<le> 29"
  proof -
    have "m * h < 30 * h" using split r0 ih by linarith
    then have "m < 30" using hpos by simp
    then show ?thesis by simp
  qed
  define q :: rat where "q = of_int i / of_int h"
  have hrat: "(0::rat) < of_int h" using hpos by simp
  have q30: "30 * q = of_int m + of_int r / of_int h"
  proof -
    have "30 * q = of_int (30 * i) / of_int h" by (simp add: q_def)
    also have "\<dots> = (of_int m * of_int h + of_int r) / of_int h" by (simp add: split)
    also have "\<dots> = of_int m + of_int r / of_int h" using hrat by (simp add: add_divide_distrib)
    finally show ?thesis .
  qed
  show ?thesis
  proof (cases "r = 0")
    case True
    then have "30 * q = of_int m" using q30 by simp
    then have "q = of_int m / 30" by linarith
    then have "fl64 (30 * fl64 q) = of_int m" using fl64_thirtieth[OF m0 m29] by (simp only:)
    then have "\<lfloor>fl64 (30 * fl64 q)\<rfloor> = m" by simp
    then show ?thesis by (simp only: q_def m_def)
  next
    case False
    then have r1: "1 \<le> r" using r0 by simp
    have rh1: "r \<le> h - 1" using rh by simp
    have hinv: "1 / 2 ^ 47 \<le> 1 / (of_int h :: rat)"
    proof -
      have "(of_int h :: rat) \<le> of_int (2 ^ 47)" using hb by (simp only: of_int_le_iff)
      then show ?thesis using hrat by (simp add: frac_le)
    qed
    have frac_lo: "1 / of_int h \<le> of_int r / (of_int h :: rat)"
      using r1 hrat by (simp add: divide_right_mono)
    have frac_hi: "of_int r / (of_int h :: rat) \<le> 1 - 1 / of_int h"
    proof -
      have "of_int r / (of_int h :: rat) \<le> of_int (h - 1) / of_int h"
        using rh1 hrat by (simp only: divide_right_mono of_int_le_iff less_imp_le)
      also have "\<dots> = 1 - 1 / of_int h" using hrat by (simp add: diff_divide_distrib)
      finally show ?thesis .
    qed
    have ipos: "0 < i" using False i0 by (cases "i = 0") (auto simp: r_def)
    have qlo: "1 / of_int h \<le> q"
      using ipos hrat by (simp add: q_def divide_right_mono)
    have qhi: "q \<le> 1" using ih hrat by (simp add: q_def)
    have qpos: "0 < q" using ipos hrat by (simp add: q_def)
    have tiny: "(2::rat) powi (- 1022) \<le> 1 / 2 ^ 47" by (simp add: power_int_minus field_simps)
    define y where "y = fl64 q"
    have "1 / 2 ^ 47 \<le> q" using qlo hinv by (rule order_trans[rotated])
    then have "2 powi (- 1022) \<le> q" by (rule order_trans[OF tiny])
    then have yerr: "\<bar>y - q\<bar> \<le> q / 2 ^ 53"
      unfolding y_def by (rule fl64_rel_err)
    define eps :: rat where "eps = 1 / 2 ^ 53"
    define d :: rat where "d = 1 / 2 ^ 47"
    have eps30: "30 * eps \<le> 1" and epsd: "61 * eps < d" and eps0: "0 < eps"
      by (simp_all add: eps_def d_def)
    have dh: "d \<le> 1 / of_int h" using hinv by (simp only: d_def)
    have yq: "\<bar>y - q\<bar> \<le> eps"
    proof -
      have "q / 2 ^ 53 \<le> 1 / 2 ^ 53" using qhi by (simp add: divide_right_mono)
      then show ?thesis using yerr unfolding eps_def by linarith
    qed
    have ylo: "1 / 2 ^ 48 \<le> y"
    proof -
      have "q / 2 ^ 53 \<le> q / 2" using qpos by (simp add: frac_le)
      then have "\<bar>y - q\<bar> \<le> q / 2" using yerr by linarith
      then have "q / 2 \<le> y" by linarith
      moreover have "1 / 2 ^ 47 \<le> q" using qlo hinv by linarith
      ultimately show ?thesis by simp
    qed
    define z where "z = fl64 (30 * y)"
    have "1 / 2 ^ 47 \<le> 30 * y" using ylo by simp
    then have "2 powi (- 1022) \<le> 30 * y" by (rule order_trans[OF tiny])
    then have zerr: "\<bar>z - 30 * y\<bar> \<le> 30 * y / 2 ^ 53"
      unfolding z_def by (rule fl64_rel_err)
    have y31: "30 * y \<le> 31" using yq qhi eps30 by linarith
    have zy: "\<bar>z - 30 * y\<bar> \<le> 31 * eps"
    proof -
      have "30 * y / 2 ^ 53 \<le> 31 / 2 ^ 53" using y31 by (simp add: divide_right_mono)
      then show ?thesis using zerr unfolding eps_def by linarith
    qed
    have zq: "\<bar>z - 30 * q\<bar> \<le> 61 * eps" using zy yq by linarith
    have "of_int m \<le> z" using zq q30 frac_lo dh epsd by linarith
    moreover have "z < of_int m + 1" using zq q30 frac_hi dh epsd by linarith
    ultimately have "\<lfloor>z\<rfloor> = m" by (simp add: floor_unique)
    then show ?thesis by (simp add: z_def y_def q_def m_def)
  qed
qed

subsection \<open>What \<^verbatim>\<open>create_icon\<close> draws\<close>

lemma and_then_Inr [simp]: "and_then (Inr x) f = f x"
  by (simp add: and_then_def)

lemma and_then_Inl [simp]: "and_then (Inl err) f = Inl err"
  by (simp add: and_then_def)

lemma set_py_range: "set (py_range n) = {i. 0 \<le> i \<and> i < n}"
proof (rule set_eqI)
  fix i
  show "i \<in> set (py_range n) \<longleftrightarrow> i \<in> {i. 0 \<le> i \<and> i < n}"
  proof
    assume "i \<in> set (py_range n)"
    then obtain k where "k < nat n" "i = int k" by (auto simp: py_range_def)
    then show "i \<in> {i. 0 \<le> i \<and> i < n}" by (simp add: zless_nat_eq_int_zless)
  next
    assume "i \<in> {i. 0 \<le> i \<and> i < n}"
    then have "nat i < nat n" "i = int (nat i)" by simp_all
    then have "i \<in> int ` {0..<nat n}" by (metis atLeastLessThan_iff image_eqI le0)
    then show "i \<in> set (py_range n)" by (simp add: py_range_def)
  qed
qed

lemma length_py_range: "length (py_range n) = nat n"
  by (simp add: py_range_def)

lemma nth_py_range: "k < nat n \<Longrightarrow> py_range n ! k = int k"
  by (simp add: py_range_def)

lemma gradient_alpha_eq: "size' div 2 \<noteq> 0 \<Longrightarrow> gradient_alpha i size' = Inr (band_alpha i size')"
  by (simp add: gradient_alpha_def py_truediv_def band_alpha_def)

lemma band_box_ordered:
  assumes "0 < size'" "0 \<le> i" "i < size' div 2"
  shows "box_ordered (size' div 20, size' div 20 + i, size' - size' div 20, size' - size' div 20)"
  using assms by (simp add: box_ordered_def) linarith

lemma gradient_loop_eq:
  assumes "0 < size'" "set ixs \<subseteq> {i. 0 \<le> i \<and> i < size' div 2}"
  shows "gradient_loop size' (size' div 20) ixs ov = Inr (foldl Draw ov (map (band size') ixs))"
  using assms(2)
proof (induction ixs arbitrary: ov)
  case Nil
  then show ?case by simp
next
  case (Cons i ixs)
  then have i: "0 \<le> i" "i < size' div 2" by simp_all
  then have "size' div 2 \<noteq> 0" by linarith
  then show ?case
    using Cons i band_box_ordered[OF assms(1) i]
    by (simp add: gradient_alpha_eq draw_ellipse_def band_def)
qed

lemma drawn_shapes_foldl: "drawn_shapes (foldl Draw im ss) = drawn_shapes im @ ss"
  by (induction ss arbitrary: im) simp_all

lemma overlays_foldl: "overlays (foldl Draw im ss) = overlays im"
  by (induction ss arbitrary: im) simp_all

lemma canvas_foldl: "canvas (foldl Draw im ss) = canvas im"
  by (induction ss arbitrary: im) simp_all

lemma image_mode_foldl: "image_mode (foldl Draw im ss) = image_mode im"
  by (induction ss arbitrary: im) simp_all

lemma image_size_foldl: "image_size (foldl Draw im ss) = image_size im"
  by (induction ss arbitrary: im) simp_all

lemma creates_canvas_iff [simp]:
  "creates_canvas size' \<longleftrightarrow> 0 \<le> size' \<and> size' \<le> 536870910"
  by (simp add: creates_canvas_def image_new_def)

lemma icon_image_refused:
  assumes "\<not> creates_canvas size'"
  shows "icon_image e size' = image_new ''RGBA'' (size', size') (RGBA 0 0 0 0)
    \<and> icon_image e size' \<in> {Inl ValueError, Inl OverflowError, Inl MemoryError}"
proof -
  obtain err where err: "image_new ''RGBA'' (size', size') (RGBA 0 0 0 0) = Inl err"
    using assms by (auto simp: creates_canvas_def simp del: creates_canvas_iff split: sum.splits)
  then have kind: "err \<in> {ValueError, OverflowError, MemoryError}"
    by (auto simp: image_new_def split: if_splits)
  have "icon_image e size' = Inl err"
    unfolding icon_image_def err by (rule and_then_Inl)
  then show ?thesis using err kind by auto
qed

lemma icon_image_too_large:
  assumes "0 < size'" and "\<not> creates_canvas size'"
  shows "icon_image e size' \<in> {Inl OverflowError, Inl MemoryError}"
proof -
  have "image_new ''RGBA'' (size', size') (RGBA 0 0 0 0) \<in> {Inl OverflowError, Inl MemoryError}"
    using assms by (simp add: image_new_def)
  then show ?thesis using icon_image_refused[OF assms(2), of e] by simp
qed

lemma icon_image_eq:
  fixes e :: env and size' :: int
  defines "m \<equiv> size' div 20"
    and "fnt \<equiv> select_font e (max (size' div 8) 12)"
    and "tw \<equiv> fst (text_extent e size')"
    and "th \<equiv> snd (text_extent e size')"
  defines "tx \<equiv> (size' - tw) div 2"
    and "ty \<equiv> (size' - th) div 2 - size' div 12"
    and "so \<equiv> max 1 (size' div 100)"
    and "c \<equiv> size' div 6"
  defines "cx \<equiv> (size' - c) div 2"
    and "cy \<equiv> ty + th + size' div 20"
  assumes pos: "0 < size'" and ok: "creates_canvas size'"
  shows "icon_image e size' =
     Inr (Draw (Draw (Draw (Draw
       (AlphaComposite
          (Draw (New ''RGBA'' (size', size') (RGBA 0 0 0 0))
             (Ellipse (m, m, size' - m, size' - m) (RGB 33 150 243)))
          (foldl Draw (New ''RGBA'' (size', size') (RGBA 0 0 0 0))
             (map (band size') (py_range (size' div 2)))))
       (Text (tx + so, ty + so) ''ID'' (RGBA 0 0 0 100) fnt))
       (Text (tx, ty) ''ID'' (RGB 255 255 255) fnt))
       (Rectangle (cx, cy, cx + c, cy + c div 2) (RGB 255 193 7)))
       (Ellipse (cx + (c - c div 3) div 2, cy + (c div 2 - c div 3) div 2,
                 cx + (c - c div 3) div 2 + c div 3, cy + (c div 2 - c div 3) div 2 + c div 3)
          (RGBA 0 0 0 150)))"
proof -
  obtain b0 b1 b2 b3 where bb: "textbbox e (0, 0) ''ID'' fnt = (b0, b1, b2, b3)"
    by (metis prod_cases4)
  have ext: "text_extent e size' = (b2 - b0, b3 - b1)"
    using bb by (simp add: text_extent_def fnt_def)
  have badge: "box_ordered (m, m, size' - m, size' - m)"
    using pos unfolding m_def box_ordered_def by simp
  have loop: "gradient_loop size' (size' div 20) (py_range (size' div 2)) ov
      = Inr (foldl Draw ov (map (band size') (py_range (size' div 2))))" for ov
    by (rule gradient_loop_eq[OF pos]) (simp add: set_py_range)
  have c0: "0 \<le> c" "0 \<le> c div 2" "0 \<le> c div 3"
    using pos by (simp_all add: c_def pos_imp_zdiv_nonneg_iff)
  have cam: "box_ordered (x, y, x + c, y + c div 2)" for x y
    using c0 by (simp add: box_ordered_def)
  have lens: "box_ordered (x, y, x + c div 3, y + c div 3)" for x y
    using c0 by (simp add: box_ordered_def)
  have new: "image_new ''RGBA'' (size', size') (RGBA 0 0 0 0)
      = Inr (New ''RGBA'' (size', size') (RGBA 0 0 0 0))"
    using ok by (simp add: image_new_def)
  show ?thesis
    unfolding icon_image_def
    by (simp add: new Let_def draw_ellipse_def draw_rectangle_def draw_text_def
        alpha_composite_def image_mode_foldl image_size_foldl loop
        badge[unfolded m_def] cam[unfolded c_def] lens[unfolded c_def]
        bb[unfolded fnt_def] ext m_def fnt_def tw_def th_def tx_def ty_def so_def c_def cx_def cy_def)
qed

lemma icon_image_parts:
  assumes "0 < size'" and "creates_canvas size'"
  shows "\<exists>img. icon_image e size' = Inr img
    \<and> image_mode img = ''RGBA'' \<and> image_size img = (size', size')
    \<and> canvas img = New ''RGBA'' (size', size') (RGBA 0 0 0 0)
    \<and> overlays img = [foldl Draw (New ''RGBA'' (size', size') (RGBA 0 0 0 0))
                        (map (band size') (py_range (size' div 2)))]"
  by (simp add: icon_image_eq[OF assms])

lemma save_writable:
  "writable fs path \<Longrightarrow> save im path fs = (None, fs\<lparr>files := AList.update path (PNG im) (files fs)\<rparr>)"
  by (auto simp: writable_def save_def Let_def)

lemma save_error_kinds:
  "fst (save im path fs) \<in> {None, Some FileNotFoundError, Some IsADirectoryError,
      Some NotADirectoryError, Some PermissionError}"
  by (simp add: save_def Let_def)

lemma select_font_cases:
  assumes "0 < n"
  shows "select_font e n =
    (if ''/usr/share/fonts/truetype/dejavu/DejaVuSans-Bold.ttf'' \<in> set (font_files e)
     then FreeTypeFont ''/usr/share/fonts/truetype/dejavu/DejaVuSans-Bold.ttf'' n
     else if ''/System/Library/Fonts/Arial.ttf'' \<in> set (font_files e)
     then FreeTypeFont ''/System/Library/Fonts/Arial.ttf'' n
     else DefaultFont)"
  using assms by (simp add: select_font_def truetype_def load_default_def)

lemma float_of_int_30: "float_of_int 30 = 30"
  unfolding float_of_int_def by code_simp

lemma band_alpha_exact:
  assumes "0 \<le> i" "i < size' div 2" "size' \<le> 2 ^ 48"
  shows "band_alpha i size' = 30 * i div (size' div 2)"
proof -
  have h: "size' div 2 \<le> 2 ^ 47" using assms(3) by simp
  define z where "z = fl64 (30 * fl64 (of_int i / of_int (size' div 2)))"
  have fl: "\<lfloor>z\<rfloor> = 30 * i div (size' div 2)"
    unfolding z_def by (rule alpha_exact[OF assms(1,2) h])
  have "0 \<le> 30 * i div (size' div 2)"
    using assms(1,2) by (simp add: pos_imp_zdiv_nonneg_iff)
  then have "0 \<le> z" using fl by (simp add: zero_le_floor[symmetric] del: zero_le_floor)
  then have "py_int z = \<lfloor>z\<rfloor>" by (simp add: py_int_def)
  then show ?thesis
    using fl by (simp add: band_alpha_def float_mul_def float_of_int_30 z_def)
qed

lemma map_band_exact:
  assumes "size' \<le> 2 ^ 48"
  shows "map (band size') (py_range (size' div 2)) =
    map (\<lambda>i. Ellipse (size' div 20, size' div 20 + i, size' - size' div 20, size' - size' div 20)
                 (RGBA 0 0 0 (30 * i div (size' div 2))))
      (py_range (size' div 2))"
  by (rule map_cong[OF refl]) (simp add: set_py_range band_def band_alpha_exact[OF _ _ assms])

declare makedirs.simps [simp del]

lemma main_loop_run_calls: "main_loop e items fs = run_calls e (calls_of items) fs"
proof (induction items arbitrary: fs)
  case Nil
  then show ?case by (simp add: calls_of_def)
next
  case (Cons item items)
  obtain folder size' where item: "item = (folder, size')" by (cases item)
  have unf: "calls_of ((folder, size') # items) =
      Makedirs (path_join base_path folder)
      # CreateIcon size' (path_join (path_join base_path folder) ''ic_launcher.png'')
      # CreateIcon size' (path_join (path_join base_path folder) ''ic_launcher_round.png'')
      # calls_of items"
    by (simp add: calls_of_def)
  show ?case
    unfolding item unf
    by (simp add: Let_def Cons.IH split: prod.splits option.splits)
qed

lemma main_run_calls: "main e fs = run_calls e batch fs"
  by (simp add: main_def batch_def main_loop_run_calls)

lemma batch_eq: "batch =
  [Makedirs ''android/app/src/main/res/mipmap-mdpi'',
   CreateIcon 48 ''android/app/src/main/res/mipmap-mdpi/ic_launcher.png'',
   CreateIcon 48 ''android/app/src/main/res/mipmap-mdpi/ic_launcher_round.png'',
   Makedirs ''android/app/src/main/res/mipmap-hdpi'',
   CreateIcon 72 ''android/app/src/main/res/mipmap-hdpi/ic_launcher.png'',
   CreateIcon 72 ''android/app/src/main/res/mipmap-hdpi/ic_launcher_round.png'',
   Makedirs ''android/app/src/main/res/mipmap-xhdpi'',
   CreateIcon 96 ''android/app/src/main/res/mipmap-xhdpi/ic_launcher.png'',
   CreateIcon 96 ''android/app/src/main/res/mipmap-xhdpi/ic_launcher_round.png'',
   Makedirs ''android/app/src/main/res/mipmap-xxhdpi'',
   CreateIcon 144 ''android/app/src/main/res/mipmap-xxhdpi/ic_launcher.png'',
   CreateIcon 144 ''android/app/src/main/res/mipmap-xxhdpi/ic_launcher_round.png'',
   Makedirs ''android/app/src/main/res/mipmap-xxxhdpi'',
   CreateIcon 192 ''android/app/src/main/res/mipmap-xxxhdpi/ic_launcher.png'',
   CreateIcon 192 ''android/app/src/main/res/mipmap-xxxhdpi/ic_launcher_round.png'']"
  by (simp add: batch_def calls_of_def sizes_def base_path_def path_join_def)

lemma mkdir_files: "files (snd (mkdir p fs)) = files fs"
  by (simp add: mkdir_def Let_def)

lemma mkdir_last_files: "files (snd (mkdir_last name ok fs)) = files fs"
  using mkdir_files[of name fs]
  by (auto simp: mkdir_last_def split: prod.splits option.splits)

lemma makedirs_files: "files (snd (makedirs name ok fs)) = files fs"
proof (induction name ok fs rule: makedirs.induct)
  case (1 name exist_ok fs)
  show ?case
  proof (cases "fst (makedirs_split name) \<noteq> [] \<and> snd (makedirs_split name) \<noteq> []
         \<and> \<not> path_exists fs (fst (makedirs_split name))")
    case True
    then have IH: "files (snd (makedirs (fst (makedirs_split name)) exist_ok fs)) = files fs"
      using "1.IH" by blast
    obtain r fs' where rec: "makedirs (fst (makedirs_split name)) exist_ok fs = (r, fs')"
      by (cases "makedirs (fst (makedirs_split name)) exist_ok fs")
    then have f': "files fs' = files fs" using IH by simp
    show ?thesis
      using True f' mkdir_last_files[of name exist_ok fs']
      by (subst makedirs.simps) (auto simp: rec split: option.splits)
  next
    case False
    then show ?thesis
      using mkdir_last_files[of name exist_ok fs]
      by (subst makedirs.simps) auto
  qed
qed

lemma save_outcome:
  "save im path fs = (None, fs\<lparr>files := AList.update path (PNG im) (files fs)\<rparr>)
   \<or> (\<exists>err. save im path fs = (Some err, fs))"
  by (simp add: save_def Let_def)

lemma run_calls_append:
  "run_calls e (xs @ ys) fs =
     (case run_calls e xs fs of
        (Some err, fs') \<Rightarrow> (Some err, fs')
      | (None, fs') \<Rightarrow> run_calls e ys fs')"
  by (induction xs arbitrary: fs) (auto split: prod.splits option.splits)

lemma create_icon_outcome:
  "(\<exists>img. icon_image e size' = Inr img
      \<and> create_icon e size' p fs = (None, fs\<lparr>files := AList.update p (PNG img) (files fs)\<rparr>))
   \<or> (\<exists>err. create_icon e size' p fs = (Some err, fs))"
proof (cases "icon_image e size'")
  case (Inl err)
  then show ?thesis by (simp add: create_icon_def)
next
  case (Inr img)
  then show ?thesis using save_outcome[of img p fs] by (auto simp: create_icon_def)
qed

lemma run_call_failed: "run_call e c fs = (Some err, fs') \<Longrightarrow> files fs' = files fs"
proof (cases c)
  case (Makedirs name)
  assume "run_call e c fs = (Some err, fs')"
  then show ?thesis using makedirs_files[of name True fs] Makedirs by simp
next
  case (CreateIcon size' p)
  assume "run_call e c fs = (Some err, fs')"
  then show ?thesis using create_icon_outcome[of e size' p fs] CreateIcon by auto
qed

lemma run_call_done:
  "run_call e c fs = (None, fs') \<Longrightarrow> files fs' = write_all (files fs) (written e [c])"
proof (cases c)
  case (Makedirs name)
  assume "run_call e c fs = (None, fs')"
  then show ?thesis
    using makedirs_files[of name True fs] Makedirs by (simp add: write_all_def written_def)
next
  case (CreateIcon size' p)
  assume "run_call e c fs = (None, fs')"
  then show ?thesis
    using create_icon_outcome[of e size' p fs] CreateIcon
    by (auto simp: write_all_def written_def)
qed

lemma written_Cons: "written e (c # cs) = written e [c] @ written e cs"
  by (cases c) (simp_all add: written_def)

lemma write_all_append: "write_all al (xs @ ys) = write_all (write_all al xs) ys"
  by (simp add: write_all_def)

lemma run_calls_done:
  "run_calls e cs fs = (None, fs') \<Longrightarrow> files fs' = write_all (files fs) (written e cs)"
proof (induction cs arbitrary: fs)
  case Nil
  then show ?case by (simp add: write_all_def written_def)
next
  case (Cons c cs)
  obtain r fs1 where c: "run_call e c fs = (r, fs1)" by (cases "run_call e c fs")
  with Cons.prems have r: "r = None" and rest: "run_calls e cs fs1 = (None, fs')"
    by (auto split: option.splits)
  have "files fs1 = write_all (files fs) (written e [c])"
    using c r by (simp add: run_call_done)
  moreover have "files fs' = write_all (files fs1) (written e cs)"
    using Cons.IH[OF rest] .
  ultimately show ?case
    by (simp add: written_Cons[of e c cs] write_all_append)
qed

lemma run_calls_icons:
  "run_calls e cs fs = (None, fs') \<Longrightarrow> (p, s) \<in> set (icon_jobs cs) \<Longrightarrow> \<exists>img. icon_image e s = Inr img"
proof (induction cs arbitrary: fs)
  case Nil
  then show ?case by simp
next
  case (Cons c cs)
  obtain r fs1 where c: "run_call e c fs = (r, fs1)" by (cases "run_call e c fs")
  with Cons.prems have r: "r = None" and rest: "run_calls e cs fs1 = (None, fs')"
    by (auto split: option.splits)
  show ?case
  proof (cases "(p, s) \<in> set (icon_jobs cs)")
    case True
    then show ?thesis using Cons.IH[OF rest] by blast
  next
    case False
    then have "c = CreateIcon s p" using Cons.prems(2) by (cases c) auto
    then show ?thesis using c r create_icon_outcome[of e s p fs] by auto
  qed
qed

lemma map_of_write_all: "map_of (write_all al ws) = map_of al ++ map_of (rev ws)"
proof (induction ws arbitrary: al)
  case Nil
  then show ?case by (simp add: write_all_def)
next
  case (Cons w ws)
  obtain p c where w: "w = (p, c)" by (cases w)
  have "write_all al (w # ws) = write_all (AList.update p c al) ws"
    by (simp add: write_all_def w)
  moreover have "map_of (rev (w # ws)) = [p \<mapsto> c] ++ map_of (rev ws)"
    by (simp add: w)
  moreover have "(map_of al)(p \<mapsto> c) ++ map_of (rev ws) = map_of al ++ ([p \<mapsto> c] ++ map_of (rev ws))"
    by (rule ext) (simp add: map_add_def split: option.splits)
  ultimately show ?case
    by (simp only: Cons.IH update_conv')
qed

lemma icon_jobs_append: "icon_jobs (xs @ ys) = icon_jobs xs @ icon_jobs ys"
  by (induction xs rule: icon_jobs.induct) simp_all

lemma icon_jobs_member: "(p, s) \<in> set (icon_jobs cs) \<Longrightarrow> CreateIcon s p \<in> set cs"
  by (induction cs rule: icon_jobs.induct) auto

lemma icon_jobs_calls_of:
  "icon_jobs (calls_of items) =
     concat (map (\<lambda>(folder, size').
        [(path_join (path_join base_path folder) ''ic_launcher.png'', size'),
         (path_join (path_join base_path folder) ''ic_launcher_round.png'', size')]) items)"
  by (induction items) (auto simp: calls_of_def)

lemma distinct_batch_paths: "distinct (map fst (icon_jobs batch))"
  by (simp add: batch_eq)

lemma map_fst_written: "map fst (written e cs) = map fst (icon_jobs cs)"
  by (simp add: written_def case_prod_unfold comp_def)

lemma written_lookup:
  assumes "distinct (map fst (icon_jobs cs))" and "(p, s) \<in> set (icon_jobs cs)"
  shows "map_of (rev (written e cs)) p = Some (PNG (projr (icon_image e s)))"
proof -
  have "distinct (map fst (rev (written e cs)))"
    using assms(1) by (simp add: rev_map[symmetric] map_fst_written)
  moreover have "(p, PNG (projr (icon_image e s))) \<in> set (rev (written e cs))"
    using assms(2) by (force simp: written_def)
  ultimately show ?thesis by simp
qed

lemma written_lookup_none:
  assumes "p \<notin> fst ` set (icon_jobs cs)"
  shows "map_of (rev (written e cs)) p = None"
proof -
  have "fst ` set (rev (written e cs)) = fst ` set (icon_jobs cs)"
    using map_fst_written[of e cs] by (metis set_map set_rev)
  then show ?thesis using assms by (simp add: map_of_eq_None_iff)
qed

lemma run_calls_file:
  assumes "run_calls e cs fs = (None, fs')"
    and "distinct (map fst (icon_jobs cs))"
    and "(p, s) \<in> set (icon_jobs cs)"
  shows "\<exists>img. icon_image e s = Inr img \<and> map_of (files fs') p = Some (PNG img)"
proof -
  obtain img where img: "icon_image e s = Inr img"
    using run_calls_icons[OF assms(1,3)] by blast
  have "map_of (files fs') p = Some (PNG (projr (icon_image e s)))"
    by (simp add: run_calls_done[OF assms(1)] map_of_write_all written_lookup[OF assms(2,3)])
  then show ?thesis using img by simp
qed

lemma run_calls_untouched:
  assumes "run_calls e cs fs = (None, fs')" and "p \<notin> fst ` set (icon_jobs cs)"
  shows "map_of (files fs') p = map_of (files fs) p"
  by (simp add: run_calls_done[OF assms(1)] map_of_write_all map_add_def
      written_lookup_none[OF assms(2)])

lemma create_icon_save:
  assumes "0 < size'" and "creates_canvas size'"
  shows "create_icon e size' p fs = save (projr (icon_image e size')) p fs"
proof -
  obtain img where img: "icon_image e size' = Inr img"
    using icon_image_parts[OF assms] by blast
  show ?thesis by (simp add: create_icon_def img)
qed

lemma icon_image_sized:
  assumes "0 < size'" and "creates_canvas size'"
  shows "icon_image e size' = Inr (projr (icon_image e size'))
    \<and> image_size (projr (icon_image e size')) = (size', size')"
proof -
  obtain img where "icon_image e size' = Inr img" "image_size img = (size', size')"
    using icon_image_parts[OF assms] by blast
  then show ?thesis by simp
qed

lemma split_paths:
  "path_split ''android'' = ('''', ''android'')"
  "path_split ''android/app'' = (''android'', ''app'')"
  "path_split ''android/app/src'' = (''android/app'', ''src'')"
  "path_split ''android/app/src/main'' = (''android/app/src'', ''main'')"
  "path_split ''android/app/src/main/res'' = (''android/app/src/main'', ''res'')"
  "path_split ''android/app/src/main/res/mipmap-mdpi'' = (''android/app/src/main/res'', ''mipmap-mdpi'')"
  "path_split ''android/app/src/main/res/mipmap-mdpi/ic_launcher.png'' = (''android/app/src/main/res/mipmap-mdpi'', ''ic_launcher.png'')"
  "path_split ''android/app/src/main/res/mipmap-mdpi/ic_launcher_round.png'' = (''android/app/src/main/res/mipmap-mdpi'', ''ic_launcher_round.png'')"
  "path_split ''android/app/src/main/res/mipmap-hdpi'' = (''android/app/src/main/res'', ''mipmap-hdpi'')"
  "path_split ''android/app/src/main/res/mipmap-hdpi/ic_launcher.png'' = (''android/app/src/main/res/mipmap-hdpi'', ''ic_launcher.png'')"
  "path_split ''android/app/src/main/res/mipmap-hdpi/ic_launcher_round.png'' = (''android/app/src/main/res/mipmap-hdpi'', ''ic_launcher_round.png'')"
  "path_split ''android/app/src/main/res/mipmap-xhdpi'' = (''android/app/src/main/res'', ''mipmap-xhdpi'')"
  "path_split ''android/app/src/main/res/mipmap-xhdpi/ic_launcher.png'' = (''android/app/src/main/res/mipmap-xhdpi'', ''ic_launcher.png'')"
  "path_split ''android/app/src/main/res/mipmap-xhdpi/ic_launcher_round.png'' = (''android/app/src/main/res/mipmap-xhdpi'', ''ic_launcher_round.png'')"
  "path_split ''android/app/src/main/res/mipmap-xxhdpi'' = (''android/app/src/main/res'', ''mipmap-xxhdpi'')"
  "path_split ''android/app/src/main/res/mipmap-xxhdpi/ic_launcher.png'' = (''android/app/src/main/res/mipmap-xxhdpi'', ''ic_launcher.png'')"
  "path_split ''android/app/src/main/res/mipmap-xxhdpi/ic_launcher_round.png'' = (''android/app/src/main/res/mipmap-xxhdpi'', ''ic_launcher_round.png'')"
  "path_split ''android/app/src/main/res/mipmap-xxxhdpi'' = (''android/app/src/main/res'', ''mipmap-xxxhdpi'')"
  "path_split ''android/app/src/main/res/mipmap-xxxhdpi/ic_launcher.png'' = (''android/app/src/main/res/mipmap-xxxhdpi'', ''ic_launcher.png'')"
  "path_split ''android/app/src/main/res/mipmap-xxxhdpi/ic_launcher_round.png'' = (''android/app/src/main/res/mipmap-xxxhdpi'', ''ic_launcher_round.png'')"
  by (simp_all add: path_split_def rstrip_sep_def)

lemmas fs_eval =
  run_calls.simps run_call.simps makedirs.simps makedirs_split_def split_paths
  mkdir_last_def mkdir_def create_icon_save save_def isdir_def isfile_def path_exists_def
  Let_def

lemma main_res_fs:
  "main e res_fs =
    (None,
     \<lparr>dirs = [''android'', ''android/app'', ''android/app/src'', ''android/app/src/main'',
              ''android/app/src/main/res'',
              ''android/app/src/main/res/mipmap-mdpi'',
              ''android/app/src/main/res/mipmap-hdpi'',
              ''android/app/src/main/res/mipmap-xhdpi'',
              ''android/app/src/main/res/mipmap-xxhdpi'',
              ''android/app/src/main/res/mipmap-xxxhdpi''],
      files =
        [(''android/app/src/main/res/mipmap-mdpi/ic_launcher.png'', PNG (projr (icon_image e 48))),
         (''android/app/src/main/res/mipmap-mdpi/ic_launcher_round.png'', PNG (projr (icon_image e 48))),
         (''android/app/src/main/res/mipmap-hdpi/ic_launcher.png'', PNG (projr (icon_image e 72))),
         (''android/app/src/main/res/mipmap-hdpi/ic_launcher_round.png'', PNG (projr (icon_image e 72))),
         (''android/app/src/main/res/mipmap-xhdpi/ic_launcher.png'', PNG (projr (icon_image e 96))),
         (''android/app/src/main/res/mipmap-xhdpi/ic_launcher_round.png'', PNG (projr (icon_image e 96))),
         (''android/app/src/main/res/mipmap-xxhdpi/ic_launcher.png'', PNG (projr (icon_image e 144))),
         (''android/app/src/main/res/mipmap-xxhdpi/ic_launcher_round.png'', PNG (projr (icon_image e 144))),
         (''android/app/src/main/res/mipmap-xxxhdpi/ic_launcher.png'', PNG (projr (icon_image e 192))),
         (''android/app/src/main/res/mipmap-xxxhdpi/ic_launcher_round.png'', PNG (projr (icon_image e 192)))],
      denied = []\<rparr>)"
  unfolding main_run_calls batch_eq res_fs_def
  by (simp add: fs_eval)

lemma first_makedirs_from_empty:
  "makedirs ''android/app/src/main/res/mipmap-mdpi'' True empty_fs
     = makedirs ''android/app/src/main/res/mipmap-mdpi'' True res_fs"
  unfolding res_fs_def empty_fs_def by (simp add: fs_eval)

lemma main_from_empty_working_directory:
  "main e empty_fs = main e res_fs
   \<and> dirs (snd (main e empty_fs)) =
       [''android'', ''android/app'', ''android/app/src'', ''android/app/src/main'',
        ''android/app/src/main/res'',
        ''android/app/src/main/res/mipmap-mdpi'',
        ''android/app/src/main/res/mipmap-hdpi'',
        ''android/app/src/main/res/mipmap-xhdpi'',
        ''android/app/src/main/res/mipmap-xxhdpi'',
        ''android/app/src/main/res/mipmap-xxxhdpi'']"
proof -
  have "main e empty_fs = main e res_fs"
    unfolding main_run_calls batch_eq
    by (simp only: run_calls.simps run_call.simps first_makedirs_from_empty)
  then show ?thesis by (simp add: main_res_fs)
qed

lemma linux_text_extent_48: "text_extent linux_env 48 = (14, 9)"
  by (simp add: text_extent_def textbbox_def select_font_def truetype_def linux_env_def
      measured_box_def)

lemma bare_text_extent_48: "text_extent bare_env 48 = (10, 8)"
  by (simp add: text_extent_def textbbox_def select_font_def truetype_def bare_env_def
      measured_box_def load_default_def)

lemma linux_text_extent_47: "text_extent linux_env 47 = (14, 9)"
  by (simp add: text_extent_def textbbox_def select_font_def truetype_def linux_env_def
      measured_box_def)

lemma bare_text_extent_47: "text_extent bare_env 47 = (10, 8)"
  by (simp add: text_extent_def textbbox_def select_font_def truetype_def bare_env_def
      measured_box_def load_default_def)

subsection \<open>The camera glyph\<close>

text \<open>
  Claim C1 says that the camera body is a square of side \<open>size // 6\<close>. Line 74 draws the
  box \<open>[cam_x, cam_y, cam_x + cam_size, cam_y + cam_size // 2]\<close>: the body is
  \<open>size // 6\<close> wide and half as high. At size 48 it is 8 wide and 4 high, while
  \<open>48 // 6 = 8\<close>.
\<close>

theorem camera_body_not_square_counterexample:
  "map box_width (rectangle_boxes (drawn_shapes (projr (icon_image linux_env 48)))) = [8]
   \<and> map box_height (rectangle_boxes (drawn_shapes (projr (icon_image linux_env 48)))) = [4]
   \<and> (48::int) div 6 = 8"
  by (simp add: icon_image_eq box_width_def box_height_def)

text \<open>
  Claim C1 as amended. For every size greater than 0 at which the canvas is created, the
  camera body is the one rectangle drawn, and its box is \<open>size // 6\<close> wide and
  \<open>(size // 6) // 2\<close> high: the height equals the width exactly when the size is less
  than 6, where both are 0. The lens is the second and last ellipse drawn, in a box
  \<open>(size // 6) // 3\<close> wide and high: its diameter is \<open>(size // 6) // 3\<close>.
\<close>

theorem camera_body_and_lens_extent:
  assumes "0 < size'" and "creates_canvas size'"
  shows "\<exists>img cam badge lens. icon_image e size' = Inr img
    \<and> rectangle_boxes (drawn_shapes img) = [cam]
    \<and> box_width cam = size' div 6
    \<and> box_height cam = size' div 6 div 2
    \<and> (box_height cam = box_width cam) = (size' < 6)
    \<and> ellipse_boxes (drawn_shapes img) = [badge, lens]
    \<and> box_width lens = size' div 6 div 3
    \<and> box_height lens = size' div 6 div 3"
proof -
  have "(size' div 6 div 2 = size' div 6) = (size' < 6)"
    using assms(1) by presburger
  then show ?thesis
    by (simp add: icon_image_eq[OF assms] box_width_def box_height_def)
qed

theorem camera_body_and_lens_extent_witness:
  "(0::int) < 48 \<and> creates_canvas 48
   \<and> (\<exists>img cam badge lens. icon_image linux_env 48 = Inr img
    \<and> rectangle_boxes (drawn_shapes img) = [cam]
    \<and> box_width cam = 8
    \<and> box_height cam = 4
    \<and> box_height cam \<noteq> box_width cam
    \<and> ellipse_boxes (drawn_shapes img) = [badge, lens]
    \<and> box_width lens = 2
    \<and> box_height lens = 2)"
  using camera_body_and_lens_extent[of 48 linux_env] by simp

subsection \<open>The gradient overlay\<close>

text \<open>
  Claim C2. For every size greater than 0: where \<^verbatim>\<open>Image.new\<close> creates the canvas, the
  image has one overlay, created fully transparent, on which exactly the bands of the
  indices \<open>0, \<dots>, size // 2 - 1\<close> are drawn, in that order, and band \<open>i\<close> is the ellipse
  in \<open>[margin, margin + i, size - margin, size - margin]\<close> with alpha exactly
  \<open>\<lfloor>30 i / (size // 2)\<rfloor>\<close>, the two floating-point roundings of line 31 never reaching
  the next integer at such a size; at any other size line 14 raises \<^verbatim>\<open>OverflowError\<close> or
  \<^verbatim>\<open>MemoryError\<close> and no overlay is composited.
\<close>

theorem gradient_bands_alpha:
  assumes "0 < size'"
  shows "(creates_canvas size' \<longrightarrow>
      (\<exists>img overlay. icon_image e size' = Inr img
        \<and> overlays img = [overlay]
        \<and> canvas overlay = New ''RGBA'' (size', size') (RGBA 0 0 0 0)
        \<and> drawn_shapes overlay =
            map (\<lambda>i. Ellipse (size' div 20, size' div 20 + i,
                              size' - size' div 20, size' - size' div 20)
                         (RGBA 0 0 0 (30 * i div (size' div 2))))
              (py_range (size' div 2))
        \<and> length (drawn_shapes overlay) = nat (size' div 2)))
    \<and> (\<not> creates_canvas size' \<longrightarrow>
          icon_image e size' \<in> {Inl OverflowError, Inl MemoryError})"
proof (intro conjI impI)
  assume ok: "creates_canvas size'"
  then have "size' \<le> 2 ^ 48" by simp
  then show "\<exists>img overlay. icon_image e size' = Inr img
        \<and> overlays img = [overlay]
        \<and> canvas overlay = New ''RGBA'' (size', size') (RGBA 0 0 0 0)
        \<and> drawn_shapes overlay =
            map (\<lambda>i. Ellipse (size' div 20, size' div 20 + i,
                              size' - size' div 20, size' - size' div 20)
                         (RGBA 0 0 0 (30 * i div (size' div 2))))
              (py_range (size' div 2))
        \<and> length (drawn_shapes overlay) = nat (size' div 2)"
    by (simp add: icon_image_eq[OF assms ok] drawn_shapes_foldl canvas_foldl map_band_exact
        length_py_range)
next
  assume "\<not> creates_canvas size'"
  then show "icon_image e size' \<in> {Inl OverflowError, Inl MemoryError}"
    by (rule icon_image_too_large[OF assms])
qed

theorem gradient_bands_alpha_witness:
  "(0::int) < 48 \<and> creates_canvas 48
   \<and> (\<exists>img overlay. icon_image linux_env 48 = Inr img
        \<and> overlays img = [overlay]
        \<and> canvas overlay = New ''RGBA'' (48, 48) (RGBA 0 0 0 0)
        \<and> drawn_shapes overlay =
            map (\<lambda>i. Ellipse (2, 2 + i, 46, 46) (RGBA 0 0 0 (30 * i div 24))) (py_range 24)
        \<and> length (drawn_shapes overlay) = 24)"
  using gradient_bands_alpha[of 48 linux_env] by simp

subsection \<open>The whole batch\<close>

text \<open>
  Claim C3 says that a run in an empty output root creates exactly 5 directories.
  \<^verbatim>\<open>os.makedirs\<close> also creates the ancestors it finds missing: in an empty working
  directory the first call creates \<^verbatim>\<open>android\<close>, \<^verbatim>\<open>android/app\<close>, \<^verbatim>\<open>android/app/src\<close>,
  \<^verbatim>\<open>android/app/src/main\<close> and \<^verbatim>\<open>android/app/src/main/res\<close> before the first mipmap
  folder, and the run ends with 10 directories.
\<close>

theorem ten_directories_counterexample:
  "fst (main bare_env empty_fs) = None
   \<and> dirs empty_fs = []
   \<and> dirs (snd (main bare_env empty_fs)) =
       [''android'', ''android/app'', ''android/app/src'', ''android/app/src/main'',
        ''android/app/src/main/res'',
        ''android/app/src/main/res/mipmap-mdpi'',
        ''android/app/src/main/res/mipmap-hdpi'',
        ''android/app/src/main/res/mipmap-xhdpi'',
        ''android/app/src/main/res/mipmap-xxhdpi'',
        ''android/app/src/main/res/mipmap-xxxhdpi'']
   \<and> length (dirs (snd (main bare_env empty_fs))) = 10"
proof -
  have same: "main bare_env empty_fs = main bare_env res_fs"
    by (simp add: main_from_empty_working_directory)
  have "dirs empty_fs = []" by (simp add: empty_fs_def)
  then show ?thesis unfolding same main_res_fs by simp
qed

text \<open>
  Claim C3 as amended. On every machine, a run in an empty working directory returns
  normally, creates exactly 10 directories (the five ancestors of the resource directory
  and the five mipmap folders) and writes exactly 10 PNG files, \<^verbatim>\<open>ic_launcher.png\<close> and
  \<^verbatim>\<open>ic_launcher_round.png\<close> in each of \<^verbatim>\<open>mipmap-mdpi\<close> (48 pixels), \<^verbatim>\<open>mipmap-hdpi\<close> (72),
  \<^verbatim>\<open>mipmap-xhdpi\<close> (96), \<^verbatim>\<open>mipmap-xxhdpi\<close> (144) and \<^verbatim>\<open>mipmap-xxxhdpi\<close> (192) under
  \<^verbatim>\<open>android/app/src/main/res\<close>, each of an image of that folder's size. Where the
  resource directory exists already and is empty, the run ends in the same state: the
  directories it creates are then exactly the five mipmap folders.
\<close>

theorem main_fills_empty_output_root:
  "\<exists>i48 i72 i96 i144 i192.
     icon_image e 48 = Inr i48 \<and> image_size i48 = (48, 48)
   \<and> icon_image e 72 = Inr i72 \<and> image_size i72 = (72, 72)
   \<and> icon_image e 96 = Inr i96 \<and> image_size i96 = (96, 96)
   \<and> icon_image e 144 = Inr i144 \<and> image_size i144 = (144, 144)
   \<and> icon_image e 192 = Inr i192 \<and> image_size i192 = (192, 192)
   \<and> main e empty_fs =
      (None,
       \<lparr>dirs = [''android'', ''android/app'', ''android/app/src'', ''android/app/src/main'',
                ''android/app/src/main/res'',
                ''android/app/src/main/res/mipmap-mdpi'',
                ''android/app/src/main/res/mipmap-hdpi'',
                ''android/app/src/main/res/mipmap-xhdpi'',
                ''android/app/src/main/res/mipmap-xxhdpi'',
                ''android/app/src/main/res/mipmap-xxxhdpi''],
        files =
          [(''android/app/src/main/res/mipmap-mdpi/ic_launcher.png'', PNG i48),
           (''android/app/src/main/res/mipmap-mdpi/ic_launcher_round.png'', PNG i48),
           (''android/app/src/main/res/mipmap-hdpi/ic_launcher.png'', PNG i72),
           (''android/app/src/main/res/mipmap-hdpi/ic_launcher_round.png'', PNG i72),
           (''android/app/src/main/res/mipmap-xhdpi/ic_launcher.png'', PNG i96),
           (''android/app/src/main/res/mipmap-xhdpi/ic_launcher_round.png'', PNG i96),
           (''android/app/src/main/res/mipmap-xxhdpi/ic_launcher.png'', PNG i144),
           (''android/app/src/main/res/mipmap-xxhdpi/ic_launcher_round.png'', PNG i144),
           (''android/app/src/main/res/mipmap-xxxhdpi/ic_launcher.png'', PNG i192),
           (''android/app/src/main/res/mipmap-xxxhdpi/ic_launcher_round.png'', PNG i192)],
        denied = []\<rparr>)
   \<and> main e res_fs = main e empty_fs
   \<and> length (dirs (snd (main e empty_fs))) = length (dirs empty_fs) + 10
   \<and> length (dirs (snd (main e res_fs))) = length (dirs res_fs) + 5
   \<and> length (files (snd (main e empty_fs))) = length (files empty_fs) + 10"
proof -
  have "icon_image e 48 = Inr (projr (icon_image e 48))
      \<and> image_size (projr (icon_image e 48)) = (48, 48)"
    by (rule icon_image_sized) simp_all
  moreover have "icon_image e 72 = Inr (projr (icon_image e 72))
      \<and> image_size (projr (icon_image e 72)) = (72, 72)"
    by (rule icon_image_sized) simp_all
  moreover have "icon_image e 96 = Inr (projr (icon_image e 96))
      \<and> image_size (projr (icon_image e 96)) = (96, 96)"
    by (rule icon_image_sized) simp_all
  moreover have "icon_image e 144 = Inr (projr (icon_image e 144))
      \<and> image_size (projr (icon_image e 144)) = (144, 144)"
    by (rule icon_image_sized) simp_all
  moreover have "icon_image e 192 = Inr (projr (icon_image e 192))
      \<and> image_size (projr (icon_image e 192)) = (192, 192)"
    by (rule icon_image_sized) simp_all
  moreover have same: "main e empty_fs = main e res_fs"
    by (simp add: main_from_empty_working_directory)
  moreover have "length (dirs (snd (main e empty_fs))) = length (dirs empty_fs) + 10"
      "length (dirs (snd (main e res_fs))) = length (dirs res_fs) + 5"
      "length (files (snd (main e empty_fs))) = length (files empty_fs) + 10"
    unfolding same main_res_fs by (simp_all add: res_fs_def empty_fs_def)
  moreover note main_res_fs[of e]
  ultimately show ?thesis
    by (intro exI[of _ "projr (icon_image e 48)"] exI[of _ "projr (icon_image e 72)"]
          exI[of _ "projr (icon_image e 96)"] exI[of _ "projr (icon_image e 144)"]
          exI[of _ "projr (icon_image e 192)"]) (simp only: simp_thms)
qed

subsection \<open>The font fallback\<close>

text \<open>
  Claim C4 says that rendering succeeds at every size greater than 0. From size \<open>2\<^sup>3\<^sup>1\<close>
  on, \<^verbatim>\<open>Image.new\<close> on line 14 raises \<^verbatim>\<open>OverflowError\<close> before any font is looked for, on
  a machine with both fonts as on any other: \<^verbatim>\<open>create_icon\<close> raises and writes nothing.
\<close>

theorem rendering_fails_at_large_size_counterexample:
  "icon_image both_fonts_env (2 ^ 31) = Inl OverflowError
   \<and> create_icon both_fonts_env (2 ^ 31) ''out.png'' empty_fs = (Some OverflowError, empty_fs)
   \<and> files empty_fs = []"
  by (simp add: icon_image_def image_new_def create_icon_def empty_fs_def)

text \<open>
  Claim C4 as amended. For every size greater than 0 and every machine, whichever of the
  two font files can be opened: the font is the first of DejaVu Sans Bold, Arial and
  Pillow's built-in font that loads, the last of which always does, and \<^verbatim>\<open>create_icon\<close>
  never raises the \<^verbatim>\<open>OSError\<close> of a font that failed to load. Where line 14 creates the
  canvas, the drawing succeeds and gives an RGBA image of \<open>size\<close> by \<open>size\<close> pixels whose
  two texts are set in that font; \<^verbatim>\<open>create_icon\<close> then does what saving that image does,
  and with a writable output path it returns normally and leaves the PNG of that image at
  the path.
\<close>

theorem font_fallback_never_fails:
  assumes "0 < size'"
  shows "(creates_canvas size' \<longrightarrow>
           (\<exists>img. icon_image e size' = Inr img
            \<and> image_size img = (size', size') \<and> image_mode img = ''RGBA''
            \<and> text_fonts (drawn_shapes img)
                = [select_font e (max (size' div 8) 12), select_font e (max (size' div 8) 12)]
            \<and> create_icon e size' output_path fs = save img output_path fs
            \<and> (writable fs output_path \<longrightarrow>
                  create_icon e size' output_path fs
                    = (None, fs\<lparr>files := AList.update output_path (PNG img) (files fs)\<rparr>)
                  \<and> map_of (files (snd (create_icon e size' output_path fs))) output_path
                      = Some (PNG img))))
    \<and> select_font e (max (size' div 8) 12) =
         (if ''/usr/share/fonts/truetype/dejavu/DejaVuSans-Bold.ttf'' \<in> set (font_files e)
          then FreeTypeFont ''/usr/share/fonts/truetype/dejavu/DejaVuSans-Bold.ttf''
                 (max (size' div 8) 12)
          else if ''/System/Library/Fonts/Arial.ttf'' \<in> set (font_files e)
          then FreeTypeFont ''/System/Library/Fonts/Arial.ttf'' (max (size' div 8) 12)
          else DefaultFont)
    \<and> icon_image e size' \<noteq> Inl OSError
    \<and> fst (create_icon e size' output_path fs) \<noteq> Some OSError"
proof -
  have img: "\<exists>img. icon_image e size' = Inr img
            \<and> image_size img = (size', size') \<and> image_mode img = ''RGBA''
            \<and> text_fonts (drawn_shapes img)
                = [select_font e (max (size' div 8) 12), select_font e (max (size' div 8) 12)]
            \<and> create_icon e size' output_path fs = save img output_path fs
            \<and> (writable fs output_path \<longrightarrow>
                  create_icon e size' output_path fs
                    = (None, fs\<lparr>files := AList.update output_path (PNG img) (files fs)\<rparr>)
                  \<and> map_of (files (snd (create_icon e size' output_path fs))) output_path
                      = Some (PNG img))"
    if ok: "creates_canvas size'"
  proof -
    obtain im where im: "icon_image e size' = Inr im"
      using icon_image_parts[OF assms ok] by blast
    have "create_icon e size' output_path fs
          = (None, fs\<lparr>files := AList.update output_path (PNG im) (files fs)\<rparr>)
        \<and> map_of (files (snd (create_icon e size' output_path fs))) output_path = Some (PNG im)"
      if w: "writable fs output_path"
      by (simp add: create_icon_def im save_writable[OF w] update_conv')
    moreover have "image_size im = (size', size') \<and> image_mode im = ''RGBA''
        \<and> text_fonts (drawn_shapes im)
            = [select_font e (max (size' div 8) 12), select_font e (max (size' div 8) 12)]
        \<and> create_icon e size' output_path fs = save im output_path fs"
      using im by (simp add: icon_image_eq[OF assms ok] create_icon_def) auto
    ultimately show ?thesis using im by blast
  qed
  have font: "select_font e (max (size' div 8) 12) =
         (if ''/usr/share/fonts/truetype/dejavu/DejaVuSans-Bold.ttf'' \<in> set (font_files e)
          then FreeTypeFont ''/usr/share/fonts/truetype/dejavu/DejaVuSans-Bold.ttf''
                 (max (size' div 8) 12)
          else if ''/System/Library/Fonts/Arial.ttf'' \<in> set (font_files e)
          then FreeTypeFont ''/System/Library/Fonts/Arial.ttf'' (max (size' div 8) 12)
          else DefaultFont)"
    by (rule select_font_cases) simp
  have noerr: "icon_image e size' \<noteq> Inl OSError
      \<and> fst (create_icon e size' output_path fs) \<noteq> Some OSError"
  proof (cases "creates_canvas size'")
    case True
    then obtain im where im: "icon_image e size' = Inr im"
      using icon_image_parts[OF assms] by blast
    have "fst (save im output_path fs) \<noteq> Some OSError"
      using save_error_kinds[of im output_path fs] by auto
    then show ?thesis by (simp add: create_icon_def im)
  next
    case False
    then have "icon_image e size' \<in> {Inl ValueError, Inl OverflowError, Inl MemoryError}"
      using icon_image_refused by blast
    then show ?thesis by (auto simp: create_icon_def)
  qed
  show ?thesis using img font noerr by blast
qed

theorem font_fallback_never_fails_witness:
  "(0::int) < 48 \<and> creates_canvas 48
   \<and> writable empty_fs ''out.png''
   \<and> (\<exists>img. icon_image bare_env 48 = Inr img
         \<and> image_size img = (48, 48) \<and> image_mode img = ''RGBA''
         \<and> text_fonts (drawn_shapes img) = [DefaultFont, DefaultFont]
         \<and> create_icon bare_env 48 ''out.png'' empty_fs = save img ''out.png'' empty_fs
         \<and> create_icon bare_env 48 ''out.png'' empty_fs
             = (None, empty_fs\<lparr>files := AList.update ''out.png'' (PNG img) (files empty_fs)\<rparr>)
         \<and> map_of (files (snd (create_icon bare_env 48 ''out.png'' empty_fs))) ''out.png''
             = Some (PNG img))
   \<and> select_font bare_env 12 = DefaultFont
   \<and> fst (create_icon bare_env 48 ''out.png'' empty_fs) \<noteq> Some OSError"
proof -
  have w: "writable empty_fs ''out.png''"
    by (simp add: writable_def empty_fs_def isdir_def path_split_def)
  have f: "font_files bare_env = []" by (simp add: bare_env_def)
  have c: "creates_canvas 48" by simp
  show ?thesis
    using font_fallback_never_fails[of 48 bare_env "''out.png''" empty_fs] w f c
    by (simp only: simp_thms) auto
qed

subsection \<open>The badge\<close>

text \<open>
  Claim C5. For every size greater than 0: where \<^verbatim>\<open>Image.new\<close> creates the canvas, the
  badge circle that \<^verbatim>\<open>create_icon\<close> draws (the first shape on the canvas, a filled ellipse
  in Material blue) has the bounding box
  \<open>[size // 20, size // 20, size - size // 20, size - size // 20]\<close>; at any other size
  line 14 raises \<^verbatim>\<open>OverflowError\<close> or \<^verbatim>\<open>MemoryError\<close> and no badge is drawn.
\<close>

theorem badge_bounding_box:
  assumes "0 < size'"
  shows "(creates_canvas size' \<longrightarrow>
      (\<exists>img rest. icon_image e size' = Inr img
        \<and> drawn_shapes img =
            Ellipse (size' div 20, size' div 20, size' - size' div 20, size' - size' div 20)
              (RGB 33 150 243) # rest))
    \<and> (\<not> creates_canvas size' \<longrightarrow>
          icon_image e size' \<in> {Inl OverflowError, Inl MemoryError})"
proof (intro conjI impI)
  assume "creates_canvas size'"
  then show "\<exists>img rest. icon_image e size' = Inr img
        \<and> drawn_shapes img =
            Ellipse (size' div 20, size' div 20, size' - size' div 20, size' - size' div 20)
              (RGB 33 150 243) # rest"
    by (simp add: icon_image_eq[OF assms])
next
  assume "\<not> creates_canvas size'"
  then show "icon_image e size' \<in> {Inl OverflowError, Inl MemoryError}"
    by (rule icon_image_too_large[OF assms])
qed

theorem badge_bounding_box_witness:
  "(0::int) < 48 \<and> creates_canvas 48 \<and> (\<exists>img rest. icon_image linux_env 48 = Inr img
    \<and> drawn_shapes img = Ellipse (2, 2, 46, 46) (RGB 33 150 243) # rest)"
  using badge_bounding_box[of 48 linux_env] by simp

subsection \<open>The file written\<close>

text \<open>
  Claim C6 says that a PNG is written at every size greater than 0. \<^verbatim>\<open>Image.new\<close> takes
  the two sides as C integers: at size \<open>2\<^sup>3\<^sup>1\<close> line 14 raises \<^verbatim>\<open>OverflowError\<close>, and
  \<^verbatim>\<open>create_icon\<close> raises it in turn and leaves no file at the writable path.
\<close>

theorem no_png_at_large_size_counterexample:
  "writable empty_fs ''out.png''
   \<and> create_icon linux_env (2 ^ 31) ''out.png'' empty_fs = (Some OverflowError, empty_fs)
   \<and> map_of (files (snd (create_icon linux_env (2 ^ 31) ''out.png'' empty_fs))) ''out.png'' = None"
  by (simp add: icon_image_def image_new_def create_icon_def empty_fs_def writable_def isdir_def
      path_split_def)

text \<open>
  Claim C6 as amended. For every size greater than 0 at which \<^verbatim>\<open>Image.new\<close> creates the
  canvas, and every writable output path, \<^verbatim>\<open>create_icon(size, path)\<close> returns normally
  and leaves at the path a PNG of an image that is \<open>size\<close> by \<open>size\<close> pixels, of mode
  RGBA, and whose canvas was created fully transparent (colour \<open>(0, 0, 0, 0)\<close>) before
  anything was drawn; no other file and no directory changes.
\<close>

theorem create_icon_writes_rgba_png:
  assumes "0 < size'" and "creates_canvas size'" and "writable fs output_path"
  shows "\<exists>img. create_icon e size' output_path fs
        = (None, fs\<lparr>files := AList.update output_path (PNG img) (files fs)\<rparr>)
    \<and> map_of (files (snd (create_icon e size' output_path fs))) output_path = Some (PNG img)
    \<and> image_size img = (size', size')
    \<and> image_mode img = ''RGBA''
    \<and> canvas img = New ''RGBA'' (size', size') (RGBA 0 0 0 0)"
proof -
  obtain img where img: "icon_image e size' = Inr img" "image_mode img = ''RGBA''"
      "image_size img = (size', size')" "canvas img = New ''RGBA'' (size', size') (RGBA 0 0 0 0)"
    using icon_image_parts[OF assms(1,2)] by blast
  have "create_icon e size' output_path fs
      = (None, fs\<lparr>files := AList.update output_path (PNG img) (files fs)\<rparr>)"
    by (simp add: create_icon_def img(1) save_writable[OF assms(3)])
  then show ?thesis using img by (auto simp: update_conv')
qed

theorem create_icon_writes_rgba_png_witness:
  "(0::int) < 48 \<and> creates_canvas 48 \<and> writable empty_fs ''out.png''
   \<and> (\<exists>img. create_icon linux_env 48 ''out.png'' empty_fs
         = (None, empty_fs\<lparr>files := AList.update ''out.png'' (PNG img) (files empty_fs)\<rparr>)
      \<and> map_of (files (snd (create_icon linux_env 48 ''out.png'' empty_fs))) ''out.png''
          = Some (PNG img)
      \<and> image_size img = (48, 48)
      \<and> image_mode img = ''RGBA''
      \<and> canvas img = New ''RGBA'' (48, 48) (RGBA 0 0 0 0))"
proof -
  have w: "writable empty_fs ''out.png''"
    by (simp add: writable_def empty_fs_def isdir_def path_split_def)
  show ?thesis
    using create_icon_writes_rgba_png[of 48 empty_fs "''out.png''" linux_env] w by simp
qed

subsection \<open>The round icon\<close>

text \<open>
  Claim C7. After a run that returned normally, for each folder and size of the table:
  the two calls \<^verbatim>\<open>create_icon(size, .../ic_launcher.png)\<close> and
  \<^verbatim>\<open>create_icon(size, .../ic_launcher_round.png)\<close> are calls of the batch, with the same
  function and the same size, and the two files hold the PNG of one and the same image,
  the one \<^verbatim>\<open>create_icon\<close> draws at that size: they differ in name only.
\<close>

theorem round_icon_same_as_standard:
  assumes "main e fs = (None, fs')"
  shows "\<forall>(folder, size') \<in> set sizes.
    CreateIcon size' (path_join (path_join base_path folder) ''ic_launcher.png'') \<in> set batch
    \<and> CreateIcon size' (path_join (path_join base_path folder) ''ic_launcher_round.png'') \<in> set batch
    \<and> (\<exists>img. icon_image e size' = Inr img
          \<and> map_of (files fs') (path_join (path_join base_path folder) ''ic_launcher.png'')
              = Some (PNG img)
          \<and> map_of (files fs') (path_join (path_join base_path folder) ''ic_launcher_round.png'')
              = Some (PNG img))"
proof -
  have run: "run_calls e batch fs = (None, fs')"
    using assms by (simp add: main_run_calls)
  have both: "\<exists>img. icon_image e s = Inr img
      \<and> map_of (files fs') p = Some (PNG img) \<and> map_of (files fs') q = Some (PNG img)"
    if "(p, s) \<in> set (icon_jobs batch)" "(q, s) \<in> set (icon_jobs batch)" for p q s
    using run_calls_file[OF run distinct_batch_paths that(1)]
      run_calls_file[OF run distinct_batch_paths that(2)] by auto
  have in_batch: "CreateIcon s p \<in> set batch" if "(p, s) \<in> set (icon_jobs batch)" for p s
    using that by (rule icon_jobs_member)
  have mem: "(path_join (path_join base_path folder) ''ic_launcher.png'', size')
        \<in> set (icon_jobs batch)
      \<and> (path_join (path_join base_path folder) ''ic_launcher_round.png'', size')
        \<in> set (icon_jobs batch)"
    if "(folder, size') \<in> set sizes" for folder size'
    using that unfolding batch_def icon_jobs_calls_of by force
  show ?thesis using mem both in_batch by fast
qed

theorem round_icon_same_as_standard_witness:
  "main bare_env res_fs = (None, snd (main bare_env res_fs))
   \<and> (\<exists>img. icon_image bare_env 48 = Inr img
         \<and> map_of (files (snd (main bare_env res_fs)))
              ''android/app/src/main/res/mipmap-mdpi/ic_launcher.png'' = Some (PNG img)
         \<and> map_of (files (snd (main bare_env res_fs)))
              ''android/app/src/main/res/mipmap-mdpi/ic_launcher_round.png'' = Some (PNG img))"
proof -
  have ok: "main bare_env res_fs = (None, snd (main bare_env res_fs))"
    by (simp add: main_res_fs)
  have item: "(''mipmap-mdpi'', 48) \<in> set sizes" by (simp add: sizes_def)
  have p: "path_join (path_join base_path ''mipmap-mdpi'') ''ic_launcher.png''
        = ''android/app/src/main/res/mipmap-mdpi/ic_launcher.png''"
      "path_join (path_join base_path ''mipmap-mdpi'') ''ic_launcher_round.png''
        = ''android/app/src/main/res/mipmap-mdpi/ic_launcher_round.png''"
    by (simp_all add: base_path_def path_join_def)
  show ?thesis
    using round_icon_same_as_standard[OF ok] item ok unfolding p[symmetric] by fast
qed

subsection \<open>What the drawing depends on\<close>

text \<open>
  Claim C8 says that the text offsets and the camera and lens geometry are functions of
  the size alone. Lines 53 to 58 centre the text by the box that the selected font
  measures for it, and line 71 puts the camera below the text, so both depend on the
  font the machine could load. At size 48 the white text is drawn at \<open>(17, 15)\<close> where
  DejaVu is installed and at \<open>(19, 16)\<close> where only the built-in font is left; the camera
  body is in \<open>[20, 26, 28, 30]\<close> on both machines, the two boxes differing by one pixel
  in height at an even size. At size 47 the camera body is in \<open>[20, 27, 27, 30]\<close> on
  the first machine and in \<open>[20, 26, 27, 29]\<close> on the second.
\<close>

theorem layout_depends_on_font_counterexample:
  "drawn_shapes (projr (icon_image linux_env 48)) ! 2
     = Text (17, 15) ''ID'' (RGB 255 255 255)
         (FreeTypeFont ''/usr/share/fonts/truetype/dejavu/DejaVuSans-Bold.ttf'' 12)
   \<and> drawn_shapes (projr (icon_image bare_env 48)) ! 2
     = Text (19, 16) ''ID'' (RGB 255 255 255) DefaultFont
   \<and> rectangle_boxes (drawn_shapes (projr (icon_image linux_env 48))) = [(20, 26, 28, 30)]
   \<and> rectangle_boxes (drawn_shapes (projr (icon_image bare_env 48))) = [(20, 26, 28, 30)]
   \<and> rectangle_boxes (drawn_shapes (projr (icon_image linux_env 47))) = [(20, 27, 27, 30)]
   \<and> rectangle_boxes (drawn_shapes (projr (icon_image bare_env 47))) = [(20, 26, 27, 29)]"
proof -
  have l: "select_font linux_env 12
      = FreeTypeFont ''/usr/share/fonts/truetype/dejavu/DejaVuSans-Bold.ttf'' 12"
    by (simp add: select_font_cases linux_env_def)
  have b: "select_font bare_env 12 = DefaultFont"
    by (simp add: select_font_cases bare_env_def)
  show ?thesis
    by (simp add: icon_image_eq linux_text_extent_48 bare_text_extent_48
        linux_text_extent_47 bare_text_extent_47 l b numeral_2_eq_2)
qed

text \<open>
  Claim C8 as amended. For every size greater than 0 at which \<^verbatim>\<open>Image.new\<close> creates the
  canvas: the canvas, the badge bounds, the gradient bands, the font requested (its size
  is \<open>max(size // 8, 12)\<close>), the shadow offset \<open>max(1, size // 100)\<close>, the horizontal
  span and the height of the camera body, and the horizontal span and the diameter of the
  lens are given by the size alone; the text offsets and the vertical position of the
  camera body and of the lens depend, beyond the size, only on the selected font and on
  the width and height it measures for the text: two machines that select the same font
  and measure the same extent draw the same image. Two calls with the same size on one
  machine save the same image, whatever the output paths and the state of the file
  system.
\<close>

theorem drawing_determined_by_size_and_text_box:
  assumes "0 < size'" and "creates_canvas size'"
  shows "(\<exists>img tx ty cy ly. icon_image e size' = Inr img
      \<and> canvas img = New ''RGBA'' (size', size') (RGBA 0 0 0 0)
      \<and> overlays img = [foldl Draw (New ''RGBA'' (size', size') (RGBA 0 0 0 0))
                          (map (band size') (py_range (size' div 2)))]
      \<and> drawn_shapes img =
          [Ellipse (size' div 20, size' div 20, size' - size' div 20, size' - size' div 20)
             (RGB 33 150 243),
           Text (tx + max 1 (size' div 100), ty + max 1 (size' div 100)) ''ID'' (RGBA 0 0 0 100)
             (select_font e (max (size' div 8) 12)),
           Text (tx, ty) ''ID'' (RGB 255 255 255) (select_font e (max (size' div 8) 12)),
           Rectangle ((size' - size' div 6) div 2, cy,
                      (size' - size' div 6) div 2 + size' div 6, cy + size' div 6 div 2)
             (RGB 255 193 7),
           Ellipse ((size' - size' div 6) div 2 + (size' div 6 - size' div 6 div 3) div 2, ly,
                    (size' - size' div 6) div 2 + (size' div 6 - size' div 6 div 3) div 2
                      + size' div 6 div 3,
                    ly + size' div 6 div 3)
             (RGBA 0 0 0 150)]
      \<and> create_icon e size' p1 fs1 = save img p1 fs1
      \<and> create_icon e size' p2 fs2 = save img p2 fs2)
    \<and> (select_font e (max (size' div 8) 12) = select_font e' (max (size' div 8) 12)
         \<and> text_extent e size' = text_extent e' size'
         \<longrightarrow> icon_image e size' = icon_image e' size')"
proof -
  have "icon_image e size' = icon_image e' size'"
    if "select_font e (max (size' div 8) 12) = select_font e' (max (size' div 8) 12)"
      "text_extent e size' = text_extent e' size'"
    using that by (simp add: icon_image_eq[OF assms])
  moreover have "\<exists>img tx ty cy ly. icon_image e size' = Inr img
      \<and> canvas img = New ''RGBA'' (size', size') (RGBA 0 0 0 0)
      \<and> overlays img = [foldl Draw (New ''RGBA'' (size', size') (RGBA 0 0 0 0))
                          (map (band size') (py_range (size' div 2)))]
      \<and> drawn_shapes img =
          [Ellipse (size' div 20, size' div 20, size' - size' div 20, size' - size' div 20)
             (RGB 33 150 243),
           Text (tx + max 1 (size' div 100), ty + max 1 (size' div 100)) ''ID'' (RGBA 0 0 0 100)
             (select_font e (max (size' div 8) 12)),
           Text (tx, ty) ''ID'' (RGB 255 255 255) (select_font e (max (size' div 8) 12)),
           Rectangle ((size' - size' div 6) div 2, cy,
                      (size' - size' div 6) div 2 + size' div 6, cy + size' div 6 div 2)
             (RGB 255 193 7),
           Ellipse ((size' - size' div 6) div 2 + (size' div 6 - size' div 6 div 3) div 2, ly,
                    (size' - size' div 6) div 2 + (size' div 6 - size' div 6 div 3) div 2
                      + size' div 6 div 3,
                    ly + size' div 6 div 3)
             (RGBA 0 0 0 150)]
      \<and> create_icon e size' p1 fs1 = save img p1 fs1
      \<and> create_icon e size' p2 fs2 = save img p2 fs2"
    by (simp add: icon_image_eq[OF assms] create_icon_def drawn_shapes_foldl)
  ultimately show ?thesis by blast
qed

theorem drawing_determined_by_size_and_text_box_witness:
  "(0::int) < 48 \<and> creates_canvas 48
   \<and> select_font linux_env (max (48 div 8) 12) = select_font both_fonts_env (max (48 div 8) 12)
   \<and> text_extent linux_env 48 = text_extent both_fonts_env 48
   \<and> icon_image linux_env 48 = icon_image both_fonts_env 48"
proof -
  have f: "select_font linux_env (max (48 div 8) 12) = select_font both_fonts_env (max (48 div 8) 12)"
    by (simp add: select_font_cases linux_env_def both_fonts_env_def)
  have t: "text_extent linux_env 48 = text_extent both_fonts_env 48"
    using f by (simp add: text_extent_def textbbox_def linux_env_def both_fonts_env_def)
  show ?thesis
    using drawing_determined_by_size_and_text_box[of 48 linux_env _ _ _ _ both_fonts_env] f t
    by simp
qed

subsection \<open>A failure in the middle of the batch\<close>

text \<open>
  Claim C9. The jobs of the batch are its ten render jobs \<open>(output_path, size)\<close>, in
  order; the \<^verbatim>\<open>os.makedirs\<close> of a folder comes before the folder's first job. Let the
  batch be split at any call: the calls before it all returned normally, and the call
  itself, a \<^verbatim>\<open>makedirs\<close> or a \<^verbatim>\<open>create_icon\<close>, raises. Then \<^verbatim>\<open>main\<close> raises that very
  exception and stops in the state the failing call left, so no later call is made and
  nothing is undone or tried again; the failing call has written no file; every job
  before the failing call has its PNG in place; and the path of every job from the
  failing call on holds what it held before the run.
\<close>

theorem batch_aborts_at_first_error:
  assumes "batch = before @ c # after"
    and "run_calls e before fs = (None, fs1)"
    and "run_call e c fs1 = (Some err, fs2)"
  shows "main e fs = (Some err, fs2)
    \<and> icon_jobs batch = icon_jobs before @ icon_jobs (c # after)
    \<and> files fs2 = files fs1
    \<and> (\<forall>(p, s) \<in> set (icon_jobs before).
          \<exists>img. icon_image e s = Inr img \<and> map_of (files fs2) p = Some (PNG img))
    \<and> (\<forall>(p, s) \<in> set (icon_jobs (c # after)). map_of (files fs2) p = map_of (files fs) p)"
proof -
  have "run_calls e (c # after) fs1 = (Some err, fs2)"
    using assms(3) by simp
  then have run: "main e fs = (Some err, fs2)"
    by (simp add: main_run_calls assms(1) run_calls_append assms(2))
  have same: "files fs2 = files fs1"
    using assms(3) by (rule run_call_failed)
  have d: "distinct (map fst (icon_jobs before) @ map fst (icon_jobs (c # after)))"
    using distinct_batch_paths by (simp add: assms(1) icon_jobs_append)
  then have d1: "distinct (map fst (icon_jobs before))" by simp
  have early: "\<exists>img. icon_image e s = Inr img \<and> map_of (files fs2) p = Some (PNG img)"
    if "(p, s) \<in> set (icon_jobs before)" for p s
    using run_calls_file[OF assms(2) d1 that] by (simp add: same)
  have late: "map_of (files fs2) p = map_of (files fs) p"
    if "(p, s) \<in> set (icon_jobs (c # after))" for p s
  proof -
    have "p \<in> set (map fst (icon_jobs (c # after)))" using that by force
    then have "p \<notin> set (map fst (icon_jobs before))" using d by auto
    then have "p \<notin> fst ` set (icon_jobs before)" by simp
    then show ?thesis using run_calls_untouched[OF assms(2)] by (simp add: same)
  qed
  have jobs: "icon_jobs batch = icon_jobs before @ icon_jobs (c # after)"
    by (simp only: assms(1) icon_jobs_append)
  show ?thesis using run jobs same early late by blast
qed

theorem batch_aborts_at_first_error_witness:
  "\<exists>fs1. batch = take 5 batch @ batch ! 5 # drop 6 batch
     \<and> run_calls bare_env (take 5 batch) locked_fs = (None, fs1)
     \<and> run_call bare_env (batch ! 5) fs1 = (Some PermissionError, fs1)
     \<and> main bare_env locked_fs = (Some PermissionError, fs1)
     \<and> (\<exists>img. icon_image bare_env 72 = Inr img
           \<and> map_of (files fs1) ''android/app/src/main/res/mipmap-hdpi/ic_launcher.png''
                = Some (PNG img))
     \<and> map_of (files fs1) ''android/app/src/main/res/mipmap-hdpi/ic_launcher_round.png''
          = map_of (files locked_fs) ''android/app/src/main/res/mipmap-hdpi/ic_launcher_round.png''
     \<and> map_of (files fs1) ''android/app/src/main/res/mipmap-xhdpi/ic_launcher.png''
          = map_of (files locked_fs) ''android/app/src/main/res/mipmap-xhdpi/ic_launcher.png''"
proof -
  define fs1 where "fs1 = snd (run_calls bare_env (take 5 batch) locked_fs)"
  have split: "batch = take 5 batch @ batch ! 5 # drop 6 batch"
    by (simp add: batch_eq)
  have before: "run_calls bare_env (take 5 batch) locked_fs = (None, fs1)"
    unfolding fs1_def batch_eq locked_fs_def res_fs_def
    by (simp add: fs_eval)
  have failing: "run_call bare_env (batch ! 5) fs1 = (Some PermissionError, fs1)"
    unfolding fs1_def batch_eq locked_fs_def res_fs_def
    by (simp add: fs_eval)
  have jobs: "(''android/app/src/main/res/mipmap-hdpi/ic_launcher.png'', 72)
        \<in> set (icon_jobs (take 5 batch))"
      "(''android/app/src/main/res/mipmap-hdpi/ic_launcher_round.png'', 72)
        \<in> set (icon_jobs (batch ! 5 # drop 6 batch))"
      "(''android/app/src/main/res/mipmap-xhdpi/ic_launcher.png'', 96)
        \<in> set (icon_jobs (batch ! 5 # drop 6 batch))"
    by (simp_all add: batch_eq)
  show ?thesis
    using batch_aborts_at_first_error[OF split before failing] split before failing jobs
    by (intro exI[of _ fs1]) fast
qed

subsection \<open>The division in the gradient loop\<close>

text \<open>
  Claim C10. At size 1 the loop runs over \<^verbatim>\<open>range(0)\<close>, which is empty, so the division
  by \<open>size // 2 = 0\<close> on line 31 is never evaluated (evaluated, it would raise
  \<^verbatim>\<open>ZeroDivisionError\<close>); and for every size from 1 on, neither the drawing nor
  \<^verbatim>\<open>create_icon\<close> as a whole raises \<^verbatim>\<open>ZeroDivisionError\<close>.
\<close>

theorem no_division_by_zero:
  "(1 \<le> size' \<longrightarrow> icon_image e size' \<noteq> Inl ZeroDivisionError
      \<and> fst (create_icon e size' output_path fs) \<noteq> Some ZeroDivisionError)
   \<and> py_range (1 div 2) = []
   \<and> gradient_loop 1 margin (py_range (1 div 2)) ov = Inr ov
   \<and> gradient_alpha i 1 = Inl ZeroDivisionError"
proof -
  have "icon_image e size' \<noteq> Inl ZeroDivisionError
      \<and> fst (create_icon e size' output_path fs) \<noteq> Some ZeroDivisionError" if "1 \<le> size'"
  proof -
    from that have pos: "0 < size'" by simp
    show ?thesis
    proof (cases "creates_canvas size'")
      case True
      then obtain img where img: "icon_image e size' = Inr img"
        using icon_image_parts[OF pos] by blast
      have "fst (save img output_path fs) \<noteq> Some ZeroDivisionError"
        using save_error_kinds[of img output_path fs] by auto
      then show ?thesis by (simp add: create_icon_def img)
    next
      case False
      then have "icon_image e size' \<in> {Inl ValueError, Inl OverflowError, Inl MemoryError}"
        using icon_image_refused by blast
      then show ?thesis by (auto simp: create_icon_def)
    qed
  qed
  moreover have "py_range (1 div 2) = []" by (simp add: py_range_def)
  moreover have "gradient_alpha i 1 = Inl ZeroDivisionError"
    by (simp add: gradient_alpha_def py_truediv_def)
  ultimately show ?thesis by simp
qed

theorem no_division_by_zero_witness:
  "(1::int) \<le> 1 \<and> icon_image bare_env 1 \<noteq> Inl ZeroDivisionError
   \<and> fst (create_icon bare_env 1 ''out.png'' empty_fs) \<noteq> Some ZeroDivisionError"
  using no_division_by_zero[of 1 bare_env "''out.png''" empty_fs] by simp

end
